theory Spec2Isabelle
  imports Complex_Main "HOL-Library.Product_Lexorder" "HOL-Library.Multiset"
begin

section \<open>JavaScript values\<close>

text \<open>
  The tariff pipeline is TypeScript running on a JavaScript engine. The values it handles
  are modelled as follows.

  \<^item> A string is the list of its code units; only code units below 256 are representable.
  \<^item> A number is \<open>NaN\<close>, one of the two infinities, or a finite double, kept as the
    rational it denotes. Where the engine makes a number from a real value (reading a
    numeric literal), the value is rounded to the nearest double by \<open>to_double\<close> below.
    The sign of zero is not modelled.
  \<^item> \<open>null\<close> and \<open>undefined\<close> of a parameter typed \<open>T | null | undefined\<close> are \<open>None\<close>.
\<close>

datatype js_number = NaN | PosInfinity | NegInfinity | Num rat

datatype js_value =
    JUndefined
  | JNull
  | JBoolean bool
  | JNumber js_number
  | JString string
  | JArray "js_value list"
  | JObject "(string \<times> js_value) list"

fun isNaN :: "js_number \<Rightarrow> bool" where
  "isNaN NaN = True"
| "isNaN _ = False"

subsection \<open>Doubles\<close>

text \<open>
  The double nearest to a rational, ties going to the even significand (IEEE 754 binary64,
  the Number type). A double is a multiple of \<open>2^(e - 52)\<close>, where \<open>2^e\<close> is the power of two
  at or below its magnitude and \<open>e\<close> is at least \<open>-1022\<close>; what rounds to \<open>2^1024\<close> or more is
  an infinity. The engine reads a decimal literal this way (it may round a literal of more
  than twenty significant digits from its first twenty; V8 rounds the exact value).
\<close>

definition pow2 :: "int \<Rightarrow> rat" where
  "pow2 e = (if e < 0 then 1 / 2 ^ nat (- e) else 2 ^ nat e)"

definition round_half_even :: "rat \<Rightarrow> int" where
  "round_half_even x =
     (let f = \<lfloor>x\<rfloor>; d = x - of_int f in
      if d < 1 / 2 then f else if 1 / 2 < d then f + 1 else if even f then f else f + 1)"

text \<open>The exponent \<open>e\<close> from \<open>-1022\<close> to \<open>1023\<close> of the binade of a positive value: the least
  one with \<open>a < 2^(e + 1)\<close>, and \<open>1023\<close> when there is none.\<close>

definition binary_exponent :: "rat \<Rightarrow> int" where
  "binary_exponent a =
     (case find (\<lambda>e. a < pow2 (e + 1)) (map (\<lambda>k. int k - 1022) [0..<2046]) of
        Some e \<Rightarrow> e
      | None \<Rightarrow> 1023)"

definition to_double :: "rat \<Rightarrow> js_number" where
  "to_double x =
     (if x = 0 then Num 0
      else (let a = \<bar>x\<bar>;
                ulp = pow2 (binary_exponent a - 52);
                r = of_int (round_half_even (a / ulp)) * ulp
            in if pow2 1024 \<le> r then (if x < 0 then NegInfinity else PosInfinity)
               else Num (if x < 0 then - r else r)))"

subsection \<open>Strings\<close>

text \<open>White space and line terminators, as \<open>String.prototype.trim\<close> and the numeric
  parsers strip them: TAB, LF, VT, FF, CR, SP and NBSP.\<close>

definition is_space :: "char \<Rightarrow> bool" where
  "is_space c \<longleftrightarrow> c \<in> set [CHR 0x09, CHR 0x0A, CHR 0x0B, CHR 0x0C, CHR 0x0D, CHR 0x20, CHR 0xA0]"

definition trimStart :: "string \<Rightarrow> string" where
  "trimStart s = dropWhile is_space s"

definition trim :: "string \<Rightarrow> string" where
  "trim s = rev (dropWhile is_space (rev (dropWhile is_space s)))"

text \<open>\<open>s.replace(a, b)\<close> with one-character strings: only the first occurrence is replaced.\<close>

fun replace :: "char \<Rightarrow> char \<Rightarrow> string \<Rightarrow> string" where
  "replace a b [] = []"
| "replace a b (c # cs) = (if c = a then b # cs else c # replace a b cs)"

text \<open>\<open>s.padStart(n, "0")\<close>.\<close>

definition padStart :: "nat \<Rightarrow> char \<Rightarrow> string \<Rightarrow> string" where
  "padStart n c s = replicate (n - length s) c @ s"

subsection \<open>Decimal digits\<close>

definition is_digit :: "char \<Rightarrow> bool" where
  "is_digit c \<longleftrightarrow> c \<in> set ''0123456789''"

definition digit_val :: "char \<Rightarrow> nat" where
  "digit_val c = of_char c - of_char CHR ''0''"

text \<open>The mathematical value of a run of decimal digits.\<close>

definition digits_val :: "string \<Rightarrow> nat" where
  "digits_val ds = foldl (\<lambda>n c. 10 * n + digit_val c) 0 ds"

definition digit_char :: "nat \<Rightarrow> char" where
  "digit_char d = ''0123456789'' ! d"

text \<open>The decimal representation of a natural number, with no leading zero.\<close>

function string_of_nat :: "nat \<Rightarrow> string" where
  "string_of_nat n =
     (if n < 10 then [digit_char n] else string_of_nat (n div 10) @ [digit_char (n mod 10)])"
  by pat_completeness auto
termination
  by (relation "measure id") auto

declare string_of_nat.simps [simp del]

definition string_of_int :: "int \<Rightarrow> string" where
  "string_of_int i = (if i < 0 then CHR ''-'' # string_of_nat (nat (- i)) else string_of_nat (nat i))"

subsection \<open>Numeric literals in strings\<close>

text \<open>
  A \<open>StrDecimalLiteral\<close> is an optional sign, then \<open>Infinity\<close>, or decimal digits with
  an optional fraction and an optional exponent, at least one digit standing before or
  after the point. The functions below read the longest such literal at the head of a
  string and return its value together with the text that follows it. \<open>unsigned_decimal\<close>
  gives the mathematical value of the literal; \<open>str_decimal_literal\<close> gives the number, which
  is that value rounded to a double.
\<close>

definition strip_sign :: "string \<Rightarrow> bool \<times> string" where
  "strip_sign s =
     (case s of
        c # r \<Rightarrow> if c = CHR ''-'' then (True, r) else if c = CHR ''+'' then (False, r) else (False, s)
      | [] \<Rightarrow> (False, s))"

text \<open>The exponent part \<open>e[+-]digits\<close> at the head of a string: its value and the rest, or
  0 and the whole string when it does not start with a complete exponent part.\<close>

definition exponent_part :: "string \<Rightarrow> int \<times> string" where
  "exponent_part s =
     (case s of
        c # r \<Rightarrow>
          if c = CHR ''e'' \<or> c = CHR ''E'' then
            (let (neg, r') = strip_sign r; ds = takeWhile is_digit r' in
             if ds = [] then (0, s)
             else (if neg then - int (digits_val ds) else int (digits_val ds), dropWhile is_digit r'))
          else (0, s)
      | [] \<Rightarrow> (0, s))"

definition scale10 :: "rat \<Rightarrow> int \<Rightarrow> rat" where
  "scale10 x e = (if e < 0 then x / 10 ^ nat (- e) else x * 10 ^ nat e)"

definition unsigned_decimal :: "string \<Rightarrow> (rat \<times> string) option" where
  "unsigned_decimal s =
     (let ip = takeWhile is_digit s; r1 = dropWhile is_digit s in
      case r1 of
        c # r2 \<Rightarrow>
          if c = CHR ''.'' then
            (let fp = takeWhile is_digit r2; r3 = dropWhile is_digit r2 in
             if ip = [] \<and> fp = [] then None
             else (let (e, rest) = exponent_part r3 in
                   Some (scale10 (of_nat (digits_val ip) + of_nat (digits_val fp) / 10 ^ length fp) e,
                         rest)))
          else if ip = [] then None
          else (let (e, rest) = exponent_part r1 in Some (scale10 (of_nat (digits_val ip)) e, rest))
      | [] \<Rightarrow> if ip = [] then None else Some (of_nat (digits_val ip), []))"

definition str_decimal_literal :: "string \<Rightarrow> (js_number \<times> string) option" where
  "str_decimal_literal s =
     (let (neg, r) = strip_sign s in
      if take 8 r = ''Infinity'' then Some (if neg then NegInfinity else PosInfinity, drop 8 r)
      else case unsigned_decimal r of
             None \<Rightarrow> None
           | Some (x, rest) \<Rightarrow> Some (to_double (if neg then - x else x), rest))"

text \<open>\<open>parseFloat(s)\<close> skips leading white space and reads the longest prefix that is a
  \<open>StrDecimalLiteral\<close>; what follows the literal is ignored. With no such prefix the
  result is \<open>NaN\<close>.\<close>

definition parseFloat :: "string \<Rightarrow> js_number" where
  "parseFloat s =
     (case str_decimal_literal (trimStart s) of
        None \<Rightarrow> NaN
      | Some (n, rest) \<Rightarrow> n)"

text \<open>The literals \<open>0x..\<close>, \<open>0o..\<close> and \<open>0b..\<close>, which \<open>Number(string)\<close> accepts when they
  make up the whole string.\<close>

definition digit_in_base :: "nat \<Rightarrow> char \<Rightarrow> nat option" where
  "digit_in_base b c =
     (let v = (if is_digit c then digit_val c
               else if c \<in> set ''aA'' then 10 else if c \<in> set ''bB'' then 11
               else if c \<in> set ''cC'' then 12 else if c \<in> set ''dD'' then 13
               else if c \<in> set ''eE'' then 14 else if c \<in> set ''fF'' then 15 else 16)
      in if v < b then Some v else None)"

fun digits_in_base :: "nat \<Rightarrow> nat \<Rightarrow> string \<Rightarrow> nat option" where
  "digits_in_base b acc [] = Some acc"
| "digits_in_base b acc (c # cs) =
     (case digit_in_base b c of None \<Rightarrow> None | Some v \<Rightarrow> digits_in_base b (b * acc + v) cs)"

definition non_decimal_literal :: "string \<Rightarrow> nat option" where
  "non_decimal_literal s =
     (case s of
        z # k # ds \<Rightarrow>
          if z = CHR ''0'' \<and> ds \<noteq> [] then
            (if k \<in> set ''xX'' then digits_in_base 16 0 ds
             else if k \<in> set ''oO'' then digits_in_base 8 0 ds
             else if k \<in> set ''bB'' then digits_in_base 2 0 ds
             else None)
          else None
      | _ \<Rightarrow> None)"

text \<open>\<open>Number(s)\<close> for a string: the empty or blank string is 0; otherwise the whole
  trimmed string must be one numeric literal.\<close>

definition StringToNumber :: "string \<Rightarrow> js_number" where
  "StringToNumber s =
     (let t = trim s in
      if t = [] then Num 0
      else case non_decimal_literal t of
             Some n \<Rightarrow> to_double (of_nat n)
           | None \<Rightarrow>
               (case str_decimal_literal t of
                  Some (n, rest) \<Rightarrow> if rest = [] then n else NaN
                | None \<Rightarrow> NaN))"

text \<open>\<open>Number(value)\<close>. An array is converted through its string form, which is a numeric
  literal only for an empty array or an array of one element; a plain object never is.\<close>

fun ToNumber :: "js_value \<Rightarrow> js_number" where
  "ToNumber JUndefined = NaN"
| "ToNumber JNull = Num 0"
| "ToNumber (JBoolean b) = Num (if b then 1 else 0)"
| "ToNumber (JNumber n) = n"
| "ToNumber (JString s) = StringToNumber s"
| "ToNumber (JObject kvs) = NaN"
| "ToNumber (JArray []) = Num 0"
| "ToNumber (JArray [x]) =
     (case x of
        JUndefined \<Rightarrow> Num 0
      | JNull \<Rightarrow> Num 0
      | JBoolean b \<Rightarrow> NaN
      | JObject kvs \<Rightarrow> NaN
      | _ \<Rightarrow> ToNumber x)"
| "ToNumber (JArray (x # y # zs)) = NaN"

subsection \<open>Numbers to strings\<close>

text \<open>
  Four things outside the program are not modelled and are taken as parameters: the text
  that \<open>Number::toString\<close> gives a finite number which is not an integer below \<open>10^21\<close> in
  magnitude; the date that \<open>new Date(string)\<close> reads from a string (which depends on
  the engine and on the time zone); the text that the database driver sends for a value
  that is neither a string nor \<open>null\<close> where the column is a string; and the value that the
  driver hands the program for a stored date (\<open>TariffBox\<close> declares a string; with its
  default parsers the driver gives a \<open>Date\<close>).
\<close>

text \<open>
  A \<open>Date\<close> object is modelled by what the three getters used here return in local time:
  \<open>LocalDate d m y\<close> has \<open>getDate() = d\<close> (1 to 31), \<open>getMonth() = m\<close> (0 to 11) and
  \<open>getFullYear() = y\<close>; for \<open>InvalidDate\<close> all three return \<open>NaN\<close>.
\<close>

datatype js_date = InvalidDate | LocalDate nat nat int

text \<open>An argument of type \<open>string | Date | null\<close>.\<close>

datatype date_arg = DNull | DString string | DDate js_date

record runtime =
  number_to_string :: "rat \<Rightarrow> string"
  date_of_string :: "string \<Rightarrow> js_date"
  driver_text :: "js_value \<Rightarrow> string"
  date_value :: "string \<Rightarrow> date_arg"

text \<open>\<open>String(n)\<close> for a number.\<close>

definition String_of_number :: "runtime \<Rightarrow> js_number \<Rightarrow> string" where
  "String_of_number rt n =
     (case n of
        NaN \<Rightarrow> ''NaN''
      | PosInfinity \<Rightarrow> ''Infinity''
      | NegInfinity \<Rightarrow> ''-Infinity''
      | Num r \<Rightarrow>
          if r = of_int \<lfloor>r\<rfloor> \<and> \<bar>r\<bar> < 10 ^ 21 then string_of_int \<lfloor>r\<rfloor>
          else number_to_string rt r)"

text \<open>
  \<open>x.toFixed(f)\<close> for \<open>f\<close> from 0 to 100. For a finite \<open>x\<close> below \<open>10^21\<close> in magnitude: with
  \<open>n\<close> the integer nearest to \<open>|x| * 10^f\<close> (the larger one of two), the digits of \<open>n\<close>,
  padded with zeros to \<open>f + 1\<close> digits, with a point before the last \<open>f\<close> digits.
\<close>

definition toFixed :: "runtime \<Rightarrow> js_number \<Rightarrow> nat \<Rightarrow> string" where
  "toFixed rt x f =
     (case x of
        Num r \<Rightarrow>
          (let s = (if r < 0 then ''-'' else []);
               a = \<bar>r\<bar>
           in if a \<ge> 10 ^ 21 then s @ String_of_number rt (Num a)
              else (let n = nat \<lfloor>a * 10 ^ f + 1 / 2\<rfloor>;
                        m = string_of_nat n
                    in if f \<noteq> 0 then
                         (let m' = padStart (f + 1) CHR ''0'' m;
                              k = length m'
                          in s @ take (k - f) m' @ ''.'' @ drop (k - f) m')
                       else s @ m))
      | _ \<Rightarrow> String_of_number rt x)"

section \<open>Log records\<close>

text \<open>What the services hand to the logger: the level and the message, with the values
  the message interpolates. An error value is kept as its message.\<close>

datatype error = TypeError | Error string

datatype log_level = Info | Warn | Err

datatype log_msg =
    FailedToConvert string
  | StartingSync string
  | InvalidDataFormat
  | FoundTariffs nat
  | SyncCompleted
  | SyncError error
  | Synced string int
  | AttemptFailed int string error
  | RetryingIn nat
  | SyncFailedAfter rat
  | RunningHourlyJob
  | TariffsFetched
  | CronJobError error

section \<open>WBTariffsSync.parseNumeric\<close>

text \<open>Returns the parsed number (or \<open>None\<close> for \<open>null\<close>) and the warnings it logged.\<close>

definition parseNumeric :: "string option \<Rightarrow> js_number option \<times> (log_level \<times> log_msg) list" where
  "parseNumeric v =
     (case v of
        None \<Rightarrow> (None, [])
      | Some s \<Rightarrow>
          if s = [] \<or> trim s = ''-'' then (None, [])
          else (let parsed = parseFloat (replace CHR '','' CHR ''.'' s) in
                if isNaN parsed then (None, [(Warn, FailedToConvert s)])
                else (Some parsed, [])))"

section \<open>TariffSheetSyncService: formatting\<close>

definition formatNumber :: "runtime \<Rightarrow> js_value \<Rightarrow> string option" where
  "formatNumber rt v =
     (let num = ToNumber v in
      if isNaN num then None
      else Some (replace CHR ''.'' CHR '','' (toFixed rt num 2)))"

fun getDate :: "js_date \<Rightarrow> js_number" where
  "getDate InvalidDate = NaN"
| "getDate (LocalDate d m y) = Num (of_nat d)"

fun getMonth :: "js_date \<Rightarrow> js_number" where
  "getMonth InvalidDate = NaN"
| "getMonth (LocalDate d m y) = Num (of_nat m)"

fun getFullYear :: "js_date \<Rightarrow> js_number" where
  "getFullYear InvalidDate = NaN"
| "getFullYear (LocalDate d m y) = Num (of_int y)"

text \<open>\<open>n + 1\<close> on numbers.\<close>

fun js_succ :: "js_number \<Rightarrow> js_number" where
  "js_succ (Num r) = Num (r + 1)"
| "js_succ n = n"

text \<open>\<open>new Date(iso)\<close> for a string or a \<open>Date\<close>; \<open>formatDate\<close> never reaches it with
  \<open>null\<close>, for which it gives the epoch.\<close>

fun new_Date :: "runtime \<Rightarrow> date_arg \<Rightarrow> js_date" where
  "new_Date rt (DDate d) = d"
| "new_Date rt (DString s) = date_of_string rt s"
| "new_Date rt DNull = LocalDate 1 0 1970"

definition formatDate :: "runtime \<Rightarrow> date_arg \<Rightarrow> string option" where
  "formatDate rt iso0 =
     (if iso0 = DNull \<or> iso0 = DString [] then None
      else (let date = new_Date rt iso0;
                day = padStart 2 CHR ''0'' (String_of_number rt (getDate date));
                month = padStart 2 CHR ''0'' (String_of_number rt (js_succ (getMonth date)));
                year = String_of_number rt (getFullYear date)
            in Some (day @ ''.'' @ month @ ''.'' @ year)))"

section \<open>The tariffs table\<close>

text \<open>\<open>TariffBox\<close> of \<open>types.ts\<close>. A numeric field is a number or \<open>null\<close>.\<close>

record TariffBox =
  date :: string
  warehouse_name :: string
  delivery_and_storage_expr :: "js_number option"
  delivery_base :: "js_number option"
  delivery_liter :: "js_number option"
  storage_base :: "js_number option"
  storage_liter :: "js_number option"

text \<open>
  A row of the table \<open>tariffs\<close> that the migration creates: the columns of \<open>TariffBox\<close> and
  \<open>updated_at\<close>, a time in milliseconds. The surrogate key \<open>id\<close> is left out: no code of
  the pipeline reads or writes it. The table is the list of its rows; the migration declares
  \<open>(warehouse_name, date)\<close> unique.
\<close>

record tariff_row = TariffBox +
  updated_at :: int

definition row_key :: "'a TariffBox_scheme \<Rightarrow> string \<times> string" where
  "row_key r = (warehouse_name r, date r)"

definition unique_keys :: "tariff_row list \<Rightarrow> bool" where
  "unique_keys t \<longleftrightarrow> distinct (map row_key t)"

text \<open>The object that \<open>WBTariffsSync.sync\<close> builds for one entry of the response. The entry
  is untyped, so \<open>warehouse_name\<close> holds whatever value the entry has there.\<close>

record tariff_values =
  v_warehouse_name :: js_value
  v_delivery_base :: "js_number option"
  v_delivery_liter :: "js_number option"
  v_delivery_and_storage_expr :: "js_number option"
  v_storage_base :: "js_number option"
  v_storage_liter :: "js_number option"
  v_date :: string
  v_updated_at :: int

datatype event =
    Log log_level log_msg
  | HttpGet string
  | DbUpsert "tariff_values list"
  | DbSelect
  | SheetsClear string string
  | SheetsUpdate string string "string option list list"
  | SetTimeout nat

text \<open>The state the pipeline acts on: the table, and the trace of what the pipeline has
  done so far (log records, requests, statements issued, timers), oldest first.\<close>

record world =
  tariffs :: "tariff_row list"
  trace :: "event list"

definition emit :: "event \<Rightarrow> world \<Rightarrow> world" where
  "emit e w = w\<lparr>trace := trace w @ [e]\<rparr>"

definition logger :: "log_level \<Rightarrow> log_msg \<Rightarrow> world \<Rightarrow> world" where
  "logger l m w = emit (Log l m) w"

subsection \<open>Storing a value in a column\<close>

text \<open>
  The driver sends a number as the text \<open>String(n)\<close>, and the database reads a decimal from
  that text: an optional sign and a decimal numeral with an optional exponent.
\<close>

definition numeric_in :: "string \<Rightarrow> rat option" where
  "numeric_in s =
     (let (neg, r) = strip_sign s in
      case unsigned_decimal r of
        None \<Rightarrow> None
      | Some (x, rest) \<Rightarrow> if rest = [] then Some (if neg then - x else x) else None)"

text \<open>
  A \<open>decimal(10, 2)\<close> column rounds to two decimals, half away from zero, and rejects a value
  whose rounded magnitude reaches \<open>10^8\<close>, and an infinity. It does store \<open>NaN\<close>. In a stored
  row \<open>Num r\<close> is the decimal \<open>r\<close> itself.
\<close>

definition round2 :: "rat \<Rightarrow> rat" where
  "round2 r = (if r < 0 then - of_int \<lfloor>- r * 100 + 1 / 2\<rfloor> / 100 else of_int \<lfloor>r * 100 + 1 / 2\<rfloor> / 100)"

definition to_decimal_10_2 :: "runtime \<Rightarrow> js_number option \<Rightarrow> error + js_number option" where
  "to_decimal_10_2 rt v =
     (case v of
        None \<Rightarrow> Inr None
      | Some NaN \<Rightarrow> Inr (Some NaN)
      | Some (Num r) \<Rightarrow>
          (case numeric_in (String_of_number rt (Num r)) of
             None \<Rightarrow> Inl (Error ''invalid input syntax for type numeric'')
           | Some x \<Rightarrow>
               if \<bar>round2 x\<bar> \<ge> 10 ^ 8 then Inl (Error ''numeric field overflow'')
               else Inr (Some (Num (round2 x))))
      | Some _ \<Rightarrow> Inl (Error ''numeric field overflow''))"

text \<open>
  \<open>warehouse_name\<close> is \<open>varchar(255) not null\<close>. \<open>null\<close> and \<open>undefined\<close> violate the
  constraint. A string is stored as it is if it has at most 255 characters; a longer one is
  refused, unless all the characters in excess are spaces, which are then cut off. No text
  may hold the character of code 0. For a value that is not a string the text that the
  database driver sends is a parameter.
\<close>

definition to_varchar_255 :: "runtime \<Rightarrow> js_value \<Rightarrow> error + string" where
  "to_varchar_255 rt v =
     (case v of
        JUndefined \<Rightarrow> Inl (Error ''null value in column violates not-null constraint'')
      | JNull \<Rightarrow> Inl (Error ''null value in column violates not-null constraint'')
      | _ \<Rightarrow>
          (let s = (case v of JString s \<Rightarrow> s | _ \<Rightarrow> driver_text rt v) in
           if CHR 0x00 \<in> set s then Inl (Error ''invalid byte sequence for encoding UTF8: 0x00'')
           else if length s \<le> 255 then Inr s
           else if list_all (\<lambda>c. c = CHR '' '') (drop 255 s) then Inr (take 255 s)
           else Inl (Error ''value too long for type character varying(255)'')))"

definition to_row :: "runtime \<Rightarrow> tariff_values \<Rightarrow> error + tariff_row" where
  "to_row rt v =
     (case to_varchar_255 rt (v_warehouse_name v) of Inl e \<Rightarrow> Inl e | Inr name \<Rightarrow>
      case to_decimal_10_2 rt (v_delivery_and_storage_expr v) of Inl e \<Rightarrow> Inl e | Inr dase \<Rightarrow>
      case to_decimal_10_2 rt (v_delivery_base v) of Inl e \<Rightarrow> Inl e | Inr db \<Rightarrow>
      case to_decimal_10_2 rt (v_delivery_liter v) of Inl e \<Rightarrow> Inl e | Inr dl \<Rightarrow>
      case to_decimal_10_2 rt (v_storage_base v) of Inl e \<Rightarrow> Inl e | Inr sb \<Rightarrow>
      case to_decimal_10_2 rt (v_storage_liter v) of Inl e \<Rightarrow> Inl e | Inr sl \<Rightarrow>
        Inr \<lparr>date = v_date v, warehouse_name = name, delivery_and_storage_expr = dase,
             delivery_base = db, delivery_liter = dl, storage_base = sb, storage_liter = sl,
             updated_at = v_updated_at v\<rparr>)"

fun to_rows :: "runtime \<Rightarrow> tariff_values list \<Rightarrow> error + tariff_row list" where
  "to_rows rt [] = Inr []"
| "to_rows rt (v # vs) =
     (case to_row rt v of Inl e \<Rightarrow> Inl e | Inr r \<Rightarrow>
      case to_rows rt vs of Inl e \<Rightarrow> Inl e | Inr rs \<Rightarrow> Inr (r # rs))"

subsection \<open>insert ... on conflict (warehouse_name, date) do update\<close>

text \<open>One proposed row: it replaces the row of the same key, or is added. \<open>merge()\<close> sets
  every inserted column, so the stored row becomes the proposed one.\<close>

fun merge_row :: "tariff_row \<Rightarrow> tariff_row list \<Rightarrow> tariff_row list" where
  "merge_row r [] = [r]"
| "merge_row r (x # xs) = (if row_key x = row_key r then r # xs else x # merge_row r xs)"

text \<open>
  The statement is atomic. It fails when a value does not fit its column, and when two of
  its rows have the same key (the database refuses to update a row twice in one statement);
  the table is then unchanged.
\<close>

definition insert_on_conflict_merge ::
  "runtime \<Rightarrow> tariff_values list \<Rightarrow> tariff_row list \<Rightarrow> error + tariff_row list" where
  "insert_on_conflict_merge rt chunk t =
     (case to_rows rt chunk of
        Inl e \<Rightarrow> Inl e
      | Inr rs \<Rightarrow>
          if \<not> distinct (map row_key rs)
          then Inl (Error ''ON CONFLICT DO UPDATE command cannot affect row a second time'')
          else Inr (foldl (\<lambda>t' r. merge_row r t') t rs))"

section \<open>WBTariffsSync.sync\<close>

text \<open>
  Reading a property. \<open>v?.k\<close> is \<open>undefined\<close> when \<open>v\<close> is \<open>null\<close> or \<open>undefined\<close>; \<open>v.k\<close> then
  throws a \<open>TypeError\<close>. None of the names read here is a property of a string, a number, a
  boolean or an array, so on those both give \<open>undefined\<close>. An object is the list of its
  members as the response wrote them; of two members of one name the later one counts.
\<close>

fun optional_get :: "js_value \<Rightarrow> string \<Rightarrow> js_value" where
  "optional_get (JObject kvs) k = (case map_of (rev kvs) k of Some v \<Rightarrow> v | None \<Rightarrow> JUndefined)"
| "optional_get _ k = JUndefined"

definition get :: "js_value \<Rightarrow> string \<Rightarrow> error + js_value" where
  "get v k = (if v = JUndefined \<or> v = JNull then Inl TypeError else Inr (optional_get v k))"

text \<open>
  \<open>parseNumeric\<close> is declared on \<open>string | null | undefined\<close>, but \<open>sync\<close> hands it properties
  of an untyped entry. A value that is not a string passes the first test when it is falsy
  (\<open>false\<close>, \<open>0\<close>, \<open>NaN\<close>); any other has no method \<open>trim\<close>, and the call throws.
\<close>

definition parseNumeric_any ::
  "js_value \<Rightarrow> error + js_number option \<times> (log_level \<times> log_msg) list" where
  "parseNumeric_any v =
     (case v of
        JUndefined \<Rightarrow> Inr (parseNumeric None)
      | JNull \<Rightarrow> Inr (parseNumeric None)
      | JString s \<Rightarrow> Inr (parseNumeric (Some s))
      | JBoolean b \<Rightarrow> if b then Inl TypeError else Inr (None, [])
      | JNumber n \<Rightarrow> if n = Num 0 \<or> n = NaN then Inr (None, []) else Inl TypeError
      | JArray xs \<Rightarrow> Inl TypeError
      | JObject kvs \<Rightarrow> Inl TypeError)"

text \<open>
  What one run of \<open>sync\<close> meets outside the program: the date of the day, as the text
  \<open>YYYY-MM-DD\<close>; the time that the \<open>n\<close>-th \<open>new Date()\<close> of the mapping reads; the outcome of the
  request, after the retries of the HTTP client, either the error thrown or the body of
  the response; and for the \<open>k\<close>-th statement, whether it fails for a reason outside the
  table (a lost connection).
\<close>

record fetch_env =
  today :: string
  clock :: "nat \<Rightarrow> int"
  response :: "error + js_value"
  db_fault :: "nat \<Rightarrow> error option"

text \<open>\<open>this.parseNumeric(w.k)\<close>, the warnings going to the log.\<close>

definition parse_field :: "js_value \<Rightarrow> string \<Rightarrow> world \<Rightarrow> error \<times> world + js_number option \<times> world" where
  "parse_field w k s =
     (case parseNumeric_any (optional_get w k) of
        Inl e \<Rightarrow> Inl (e, s)
      | Inr (n, logs) \<Rightarrow> Inr (n, s\<lparr>trace := trace s @ map (\<lambda>(l, m). Log l m) logs\<rparr>))"

text \<open>The callback of \<open>warehouseList.map\<close>, for the entry at index \<open>i\<close>.\<close>

definition to_tariff :: "fetch_env \<Rightarrow> nat \<Rightarrow> js_value \<Rightarrow> world \<Rightarrow> error \<times> world + tariff_values \<times> world" where
  "to_tariff env i w s =
     (case get w ''warehouseName'' of Inl e \<Rightarrow> Inl (e, s) | Inr name \<Rightarrow>
      case parse_field w ''boxDeliveryBase'' s of Inl x \<Rightarrow> Inl x | Inr (db, s1) \<Rightarrow>
      case parse_field w ''boxDeliveryLiter'' s1 of Inl x \<Rightarrow> Inl x | Inr (dl, s2) \<Rightarrow>
      case parse_field w ''boxDeliveryAndStorageExpr'' s2 of Inl x \<Rightarrow> Inl x | Inr (dase, s3) \<Rightarrow>
      case parse_field w ''boxStorageBase'' s3 of Inl x \<Rightarrow> Inl x | Inr (sb, s4) \<Rightarrow>
      case parse_field w ''boxStorageLiter'' s4 of Inl x \<Rightarrow> Inl x | Inr (sl, s5) \<Rightarrow>
        Inr (\<lparr>v_warehouse_name = name, v_delivery_base = db, v_delivery_liter = dl,
              v_delivery_and_storage_expr = dase, v_storage_base = sb, v_storage_liter = sl,
              v_date = today env, v_updated_at = clock env i\<rparr>, s5))"

fun map_entries ::
  "fetch_env \<Rightarrow> nat \<Rightarrow> js_value list \<Rightarrow> world \<Rightarrow> error \<times> world + tariff_values list \<times> world" where
  "map_entries env i [] s = Inr ([], s)"
| "map_entries env i (w # ws) s =
     (case to_tariff env i w s of Inl x \<Rightarrow> Inl x | Inr (t, s1) \<Rightarrow>
      case map_entries env (Suc i) ws s1 of Inl x \<Rightarrow> Inl x | Inr (ts, s2) \<Rightarrow> Inr (t # ts, s2))"

definition chunkSize :: nat where
  "chunkSize = 100"

text \<open>\<open>await knex("tariffs").insert(chunk).onConflict(["warehouse_name", "date"]).merge()\<close>,
  the \<open>k\<close>-th statement of the run.\<close>

definition upsert :: "runtime \<Rightarrow> fetch_env \<Rightarrow> nat \<Rightarrow> tariff_values list \<Rightarrow> world \<Rightarrow> error \<times> world + world" where
  "upsert rt env k chunk s =
     (let s1 = emit (DbUpsert chunk) s in
      case db_fault env k of
        Some e \<Rightarrow> Inl (e, s1)
      | None \<Rightarrow>
          (case insert_on_conflict_merge rt chunk (tariffs s1) of
             Inl e \<Rightarrow> Inl (e, s1)
           | Inr t \<Rightarrow> Inr (s1\<lparr>tariffs := t\<rparr>)))"

text \<open>The loop \<open>for (let i = 0; i < tariffs.length; i += chunkSize)\<close>.\<close>

function upsert_chunks ::
  "runtime \<Rightarrow> fetch_env \<Rightarrow> tariff_values list \<Rightarrow> nat \<Rightarrow> world \<Rightarrow> error \<times> world + world" where
  "upsert_chunks rt env ts i s =
     (if i < length ts then
        (let chunk = take chunkSize (drop i ts) in
         case upsert rt env (i div chunkSize) chunk s of
           Inl x \<Rightarrow> Inl x
         | Inr s1 \<Rightarrow> upsert_chunks rt env ts (i + chunkSize) s1)
      else Inr s)"
  by pat_completeness auto
termination
  by (relation "measure (\<lambda>(rt, env, ts, i, s). length ts - i)") (auto simp: chunkSize_def)

declare upsert_chunks.simps [simp del]

text \<open>\<open>response?.data?.response?.data?.warehouseList\<close>, where \<open>body\<close> is \<open>response.data\<close>, and
  \<open>Array.isArray\<close>.\<close>

definition warehouseList_of :: "js_value \<Rightarrow> js_value" where
  "warehouseList_of body =
     optional_get (optional_get (optional_get body ''response'') ''data'') ''warehouseList''"

fun isArray :: "js_value \<Rightarrow> bool" where
  "isArray (JArray ws) = True"
| "isArray _ = False"

text \<open>The body of the \<open>try\<close> block: \<open>Inl\<close> is an exception, with the state reached when it
  was thrown. The test \<open>!Array.isArray(warehouseList)\<close> is the second branch of the \<open>case\<close>.\<close>

definition sync_try :: "runtime \<Rightarrow> fetch_env \<Rightarrow> world \<Rightarrow> error \<times> world + world" where
  "sync_try rt env s =
     (let s1 = emit (HttpGet (''/tariffs/box?date='' @ today env)) s in
      case response env of
        Inl e \<Rightarrow> Inl (e, s1)
      | Inr body \<Rightarrow>
          (let warehouseList = warehouseList_of body
           in case warehouseList of
                JArray ws \<Rightarrow>
                  (case map_entries env 0 ws s1 of
                     Inl x \<Rightarrow> Inl x
                   | Inr (ts, s2) \<Rightarrow>
                       (let s3 = logger Info (FoundTariffs (length ts)) s2 in
                        case upsert_chunks rt env ts 0 s3 of
                          Inl x \<Rightarrow> Inl x
                        | Inr s4 \<Rightarrow> Inr (logger Info SyncCompleted s4)))
              | _ \<Rightarrow> Inr (logger Warn InvalidDataFormat s1)))"

definition WBTariffsSync_sync :: "runtime \<Rightarrow> fetch_env \<Rightarrow> world \<Rightarrow> world" where
  "WBTariffsSync_sync rt env s =
     (let s0 = logger Info (StartingSync (today env)) s in
      case sync_try rt env s0 of
        Inl (err, s1) \<Rightarrow> logger Err (SyncError err) s1
      | Inr s1 \<Rightarrow> s1)"

section \<open>TariffSheetSyncService\<close>

text \<open>\<open>maxRetries\<close> is declared a \<open>number\<close>: here any finite one, whole or not. (With
  \<open>Infinity\<close> the loop of \<open>sync\<close> has no bound; with \<open>NaN\<close> it makes no attempt, as with 0.)\<close>

record TariffSheetSyncService =
  spreadsheetId :: string
  sheetName :: string
  maxRetries :: rat

text \<open>The constructor, with its defaults.\<close>

definition new_TariffSheetSyncService ::
  "string \<Rightarrow> string option \<Rightarrow> rat option \<Rightarrow> TariffSheetSyncService" where
  "new_TariffSheetSyncService sid name retries =
     \<lparr>spreadsheetId = sid,
      sheetName = (case name of None \<Rightarrow> ''stocks_coefs'' | Some n \<Rightarrow> n),
      maxRetries = (case retries of None \<Rightarrow> 3 | Some m \<Rightarrow> m)\<rparr>"

subsection \<open>getTariffData\<close>

text \<open>
  \<open>select * from tariffs order by delivery_liter asc\<close>. The database orders numbers by
  value, \<open>NaN\<close> after every number, and \<open>null\<close> last. The order of rows with equal
  \<open>delivery_liter\<close> is not fixed by the database; here they keep the order of the table.
\<close>

fun order_rank :: "js_number option \<Rightarrow> nat \<times> rat" where
  "order_rank (Some NegInfinity) = (0, 0)"
| "order_rank (Some (Num r)) = (1, r)"
| "order_rank (Some PosInfinity) = (2, 0)"
| "order_rank (Some NaN) = (3, 0)"
| "order_rank None = (4, 0)"

definition orderBy_delivery_liter_asc :: "tariff_row list \<Rightarrow> tariff_row list" where
  "orderBy_delivery_liter_asc t = sort_key (\<lambda>r. order_rank (delivery_liter r)) t"

text \<open>What one attempt of \<open>sync\<close> meets outside the program: for each of its three calls,
  whether the call fails, and with which error.\<close>

record attempt_env =
  select_fault :: "error option"
  clear_fault :: "error option"
  update_fault :: "error option"

definition getTariffData :: "attempt_env \<Rightarrow> world \<Rightarrow> error \<times> world + tariff_row list \<times> world" where
  "getTariffData env s =
     (let s1 = emit DbSelect s in
      case select_fault env of
        Some e \<Rightarrow> Inl (e, s1)
      | None \<Rightarrow> Inr (orderBy_delivery_liter_asc (tariffs s1), s1))"

subsection \<open>formatRows\<close>

definition headers :: "string option list" where
  "headers = [Some ''Date'', Some ''Warehouse'', Some ''DeliveryBase'', Some ''DeliveryLiter'',
              Some ''DeliveryAndStorageExpr'', Some ''StorageBase'', Some ''StorageLiter'']"

text \<open>A numeric field of a row as the value handed to \<open>formatNumber\<close>: \<open>null\<close>, or the
  number that the stored decimal denotes, which is the decimal rounded to a double. (The
  driver hands over the text of the decimal, and \<open>Number\<close> of that text is this number.)\<close>

definition field_value :: "js_number option \<Rightarrow> js_value" where
  "field_value v =
     (case v of
        None \<Rightarrow> JNull
      | Some (Num r) \<Rightarrow> JNumber (to_double r)
      | Some n \<Rightarrow> JNumber n)"

definition format_row :: "runtime \<Rightarrow> 'a TariffBox_scheme \<Rightarrow> string option list" where
  "format_row rt row =
     [formatDate rt (date_value rt (date row)),
      Some (warehouse_name row),
      formatNumber rt (field_value (delivery_base row)),
      formatNumber rt (field_value (delivery_liter row)),
      formatNumber rt (field_value (delivery_and_storage_expr row)),
      formatNumber rt (field_value (storage_base row)),
      formatNumber rt (field_value (storage_liter row))]"

definition formatRows :: "runtime \<Rightarrow> 'a TariffBox_scheme list \<Rightarrow> string option list list" where
  "formatRows rt data = headers # map (format_row rt) data"

subsection \<open>clearSheet and updateSheet\<close>

definition clearSheet :: "TariffSheetSyncService \<Rightarrow> attempt_env \<Rightarrow> world \<Rightarrow> error \<times> world + world" where
  "clearSheet this env s =
     (let s1 = emit (SheetsClear (spreadsheetId this) (sheetName this @ ''!A1:Z1000'')) s in
      case clear_fault env of Some e \<Rightarrow> Inl (e, s1) | None \<Rightarrow> Inr s1)"

definition updateSheet ::
  "TariffSheetSyncService \<Rightarrow> attempt_env \<Rightarrow> string option list list \<Rightarrow> world \<Rightarrow> error \<times> world + world" where
  "updateSheet this env values s =
     (let s1 = emit (SheetsUpdate (spreadsheetId this) (sheetName this @ ''!A1'') values) s in
      case update_fault env of Some e \<Rightarrow> Inl (e, s1) | None \<Rightarrow> Inr s1)"

subsection \<open>sync\<close>

text \<open>The body of the \<open>try\<close> block of one attempt.\<close>

definition attempt_try ::
  "runtime \<Rightarrow> TariffSheetSyncService \<Rightarrow> attempt_env \<Rightarrow> world \<Rightarrow> error \<times> world + world" where
  "attempt_try rt this env s =
     (case getTariffData env s of Inl x \<Rightarrow> Inl x | Inr (data, s1) \<Rightarrow>
      let rows = formatRows rt data in
      case clearSheet this env s1 of Inl x \<Rightarrow> Inl x | Inr s2 \<Rightarrow>
      case updateSheet this env rows s2 of Inl x \<Rightarrow> Inl x | Inr s3 \<Rightarrow>
        Inr (logger Info (Synced (spreadsheetId this) (int (length rows) - 1)) s3))"

text \<open>
  \<open>setTimeout(res, delay)\<close>: the platform keeps a delay from 1 to \<open>2^31 - 1\<close> milliseconds, and
  sets the timer to 1 millisecond for any other. The event \<open>SetTimeout d\<close> is a timer that
  fires after \<open>d\<close> milliseconds, which the program awaits.
\<close>

definition timer_delay :: "nat \<Rightarrow> nat" where
  "timer_delay delay = (if delay < 1 \<or> 2147483647 < delay then 1 else delay)"

definition setTimeout :: "nat \<Rightarrow> world \<Rightarrow> world" where
  "setTimeout delay s = emit (SetTimeout (timer_delay delay)) s"

text \<open>
  The loop \<open>for (let attempt = 1; attempt <= this.maxRetries; attempt++)\<close>, from the given
  value of \<open>attempt\<close>. \<open>envs k\<close> is what attempt \<open>k\<close> meets. \<open>1000 * Math.pow(2, attempt)\<close> is
  exact in doubles up to attempt 1013; beyond it the product is \<open>Infinity\<close>, for which the
  timer is 1 millisecond as for every delay above \<open>2^31 - 1\<close>, and the number of seconds
  in the log record, kept exact here, is printed as \<open>Infinity\<close>.
\<close>

function sync_from ::
  "runtime \<Rightarrow> TariffSheetSyncService \<Rightarrow> (int \<Rightarrow> attempt_env) \<Rightarrow> int \<Rightarrow> world \<Rightarrow> world" where
  "sync_from rt this envs attempt s =
     (if of_int attempt \<le> maxRetries this then
        (case attempt_try rt this (envs attempt) s of
           Inr s1 \<Rightarrow> s1
         | Inl (err, s1) \<Rightarrow>
             (let s2 = logger Err (AttemptFailed attempt (spreadsheetId this) err) s1 in
              if of_int attempt < maxRetries this then
                (let delay = 1000 * 2 ^ nat attempt;
                     s3 = logger Warn (RetryingIn (delay div 1000)) s2;
                     s4 = setTimeout delay s3
                 in sync_from rt this envs (attempt + 1) s4)
              else
                sync_from rt this envs (attempt + 1)
                  (logger Err (SyncFailedAfter (maxRetries this)) s2)))
      else s)"
  by pat_completeness auto
termination
  by (relation "measure (\<lambda>(rt, this, envs, attempt, s). nat (\<lfloor>maxRetries this\<rfloor> + 1 - attempt))")
    (auto simp: le_floor_iff)

declare sync_from.simps [simp del]

definition TariffSheetSyncService_sync ::
  "runtime \<Rightarrow> TariffSheetSyncService \<Rightarrow> (int \<Rightarrow> attempt_env) \<Rightarrow> world \<Rightarrow> world" where
  "TariffSheetSyncService_sync rt this envs s = sync_from rt this envs 1 s"

section \<open>startCron\<close>

text \<open>
  The callback that \<open>cron.schedule("0 * * * *", ...)\<close> runs at each firing. A service call
  is a procedure that returns the new state or throws. The two services are parameters
  here, so that the \<open>catch\<close> of the callback is stated for any behaviour of theirs.
\<close>

type_synonym proc = "world \<Rightarrow> error \<times> world + world"

text \<open>The loop \<open>for (const spreadsheetId of spreadsheetIds)\<close>; \<open>i\<close> counts the iterations.\<close>

fun for_spreadsheetIds :: "(nat \<Rightarrow> string \<Rightarrow> proc) \<Rightarrow> nat \<Rightarrow> string list \<Rightarrow> proc" where
  "for_spreadsheetIds sheetSync i [] s = Inr s"
| "for_spreadsheetIds sheetSync i (sid # ids) s =
     (case sheetSync i sid s of
        Inl x \<Rightarrow> Inl x
      | Inr s1 \<Rightarrow> for_spreadsheetIds sheetSync (Suc i) ids s1)"

definition cron_try :: "proc \<Rightarrow> (nat \<Rightarrow> string \<Rightarrow> proc) \<Rightarrow> string list \<Rightarrow> proc" where
  "cron_try wbTariffSync sheetSync spreadsheetIds s =
     (case wbTariffSync s of
        Inl x \<Rightarrow> Inl x
      | Inr s1 \<Rightarrow> for_spreadsheetIds sheetSync 0 spreadsheetIds (logger Info TariffsFetched s1))"

definition cron_callback :: "proc \<Rightarrow> (nat \<Rightarrow> string \<Rightarrow> proc) \<Rightarrow> string list \<Rightarrow> world \<Rightarrow> world" where
  "cron_callback wbTariffSync sheetSync spreadsheetIds s =
     (let s0 = logger Info RunningHourlyJob s in
      case cron_try wbTariffSync sheetSync spreadsheetIds s0 of
        Inl (err, s1) \<Rightarrow> logger Err (CronJobError err) s1
      | Inr s1 \<Rightarrow> s1)"

text \<open>
  What one firing meets outside the program: the environment of the run of
  \<open>WBTariffsSync.sync\<close>, and for the \<open>i\<close>-th spreadsheet the environments of the attempts of
  its \<open>TariffSheetSyncService.sync\<close>.
\<close>

record firing_env =
  fetch :: fetch_env
  publish :: "nat \<Rightarrow> int \<Rightarrow> attempt_env"

text \<open>The callback with the services that \<open>startCron\<close> constructs: one \<open>WBTariffsSync\<close>, and
  for each identifier a \<open>TariffSheetSyncService\<close> with the default sheet name and retries.\<close>

definition hourly_job :: "runtime \<Rightarrow> string list \<Rightarrow> firing_env \<Rightarrow> world \<Rightarrow> world" where
  "hourly_job rt spreadsheetIds env s =
     cron_callback
       (\<lambda>s. Inr (WBTariffsSync_sync rt (fetch env) s))
       (\<lambda>i sid s.
          Inr (TariffSheetSyncService_sync rt
                 (new_TariffSheetSyncService sid None None) (publish env i) s))
       spreadsheetIds s"

text \<open>The schedule: one run of the callback per firing, in order.\<close>

fun firings :: "runtime \<Rightarrow> string list \<Rightarrow> firing_env list \<Rightarrow> world \<Rightarrow> world" where
  "firings rt spreadsheetIds [] s = s"
| "firings rt spreadsheetIds (env # envs) s =
     firings rt spreadsheetIds envs (hourly_job rt spreadsheetIds env s)"

section \<open>Definitions used in the statements\<close>

text \<open>
  \<open>parseLocaleNumber\<close> as the specification words it: absent for absent input or a lone
  dash; otherwise the comma becomes a period and the text is parsed as a floating-point
  number; absent, with a warning, if the result is not a valid number.
\<close>

definition parseLocaleNumber_spec ::
  "string option \<Rightarrow> js_number option \<times> (log_level \<times> log_msg) list" where
  "parseLocaleNumber_spec v =
     (case v of
        None \<Rightarrow> (None, [])
      | Some s \<Rightarrow>
          if s = ''-'' then (None, [])
          else (let parsed = parseFloat (replace CHR '','' CHR ''.'' s) in
                if isNaN parsed then (None, [(Warn, FailedToConvert s)])
                else (Some parsed, [])))"

text \<open>
  The table grows: it stays free of duplicate keys if it was, and every key it had it
  still has.
\<close>

definition table_grows :: "tariff_row list \<Rightarrow> tariff_row list \<Rightarrow> bool" where
  "table_grows t t' \<longleftrightarrow>
     (unique_keys t \<longrightarrow> unique_keys t') \<and> row_key ` set t \<subseteq> row_key ` set t'"

text \<open>The state in which a call ends, whether it returns or throws.\<close>

fun final :: "error \<times> world + world \<Rightarrow> world" where
  "final (Inl (e, s)) = s"
| "final (Inr s) = s"

text \<open>The log records that the callback of the scheduler writes itself.\<close>

fun is_cron_event :: "event \<Rightarrow> bool" where
  "is_cron_event (Log l RunningHourlyJob) = True"
| "is_cron_event (Log l TariffsFetched) = True"
| "is_cron_event (Log l (CronJobError e)) = True"
| "is_cron_event _ = False"

definition cron_log :: "world \<Rightarrow> event list" where
  "cron_log s = filter is_cron_event (trace s)"

text \<open>The publishers of one firing, one after the other in the order of the identifiers,
  each a new service with the default sheet name and retries.\<close>

definition publish_all :: "runtime \<Rightarrow> (nat \<Rightarrow> int \<Rightarrow> attempt_env) \<Rightarrow> string list \<Rightarrow> world \<Rightarrow> world" where
  "publish_all rt envs ids s =
     foldl (\<lambda>s (i, sid).
              TariffSheetSyncService_sync rt (new_TariffSheetSyncService sid None None) (envs i) s)
       s (zip [0..<length ids] ids)"

text \<open>An attempt fails when one of its three calls fails.\<close>

definition fails :: "attempt_env \<Rightarrow> bool" where
  "fails env \<longleftrightarrow> select_fault env \<noteq> None \<or> clear_fault env \<noteq> None \<or> update_fault env \<noteq> None"

text \<open>
  The attempts and the timers of a trace: every attempt starts with the \<open>select\<close>, and the
  only timers are those of the retry loop. \<open>schedule a c\<close> is what \<open>c\<close> attempts from attempt
  \<open>a\<close> on leave there, with the timer that \<open>setTimeout\<close> sets for \<open>1000 * 2^i\<close> after each
  attempt \<open>i\<close> but the last.
\<close>

fun is_attempt_or_timer :: "event \<Rightarrow> bool" where
  "is_attempt_or_timer DbSelect = True"
| "is_attempt_or_timer (SetTimeout d) = True"
| "is_attempt_or_timer _ = False"

definition timeline :: "event list \<Rightarrow> event list" where
  "timeline evs = filter is_attempt_or_timer evs"

definition attempts :: "event list \<Rightarrow> nat" where
  "attempts evs = length (filter (\<lambda>e. e = DbSelect) evs)"

definition schedule :: "nat \<Rightarrow> nat \<Rightarrow> event list" where
  "schedule a c =
     concat (map (\<lambda>i. [DbSelect, SetTimeout (timer_delay (1000 * 2 ^ i))]) [a..<a + c - 1]) @
     [DbSelect]"

text \<open>Values for the examples: what \<open>sync\<close> builds for a warehouse whose two delivery
  tariffs are the whole numbers 48 and \<open>liter\<close>, and the row they are stored as.\<close>

definition example_values :: "string \<Rightarrow> nat \<Rightarrow> int \<Rightarrow> tariff_values" where
  "example_values name liter time =
     \<lparr>v_warehouse_name = JString name, v_delivery_base = Some (Num 48),
      v_delivery_liter = Some (Num (of_nat liter)), v_delivery_and_storage_expr = None,
      v_storage_base = None, v_storage_liter = None,
      v_date = ''2024-03-05'', v_updated_at = time\<rparr>"

definition example_row :: "string \<Rightarrow> nat \<Rightarrow> int \<Rightarrow> tariff_row" where
  "example_row name liter time =
     \<lparr>date = ''2024-03-05'', warehouse_name = name, delivery_and_storage_expr = None,
      delivery_base = Some (Num 48), delivery_liter = Some (Num (of_nat liter)),
      storage_base = None, storage_liter = None, updated_at = time\<rparr>"

text \<open>An attempt that fails at the \<open>select\<close>.\<close>

definition failing_attempt :: attempt_env where
  "failing_attempt =
     \<lparr>select_fault = Some (Error ''connection refused''), clear_fault = None, update_fault = None\<rparr>"


text \<open>The value of a decimal numeral written with a comma: its sign, the digits before the
  comma and the digits after it.\<close>

definition comma_decimal_value :: "bool \<Rightarrow> string \<Rightarrow> string \<Rightarrow> rat" where
  "comma_decimal_value neg ip fp =
     (let x = of_nat (digits_val ip) + of_nat (digits_val fp) / 10 ^ length fp in
      if neg then - x else x)"

text \<open>
  A runtime for the examples. It answers what the examples ask: \<open>new Date("2024-03-05")\<close> is
  midnight of that day in universal time, which an engine whose time zone is UTC sees as
  5 March 2024; the driver hands a stored date over as the string. The other values are
  never asked for, and stand for nothing: no date for any other string, and the empty text.
\<close>

definition example_runtime :: runtime where
  "example_runtime =
     \<lparr>number_to_string = (\<lambda>r. []),
      date_of_string = (\<lambda>s. if s = ''2024-03-05'' then LocalDate 5 2 2024 else InvalidDate),
      driver_text = (\<lambda>v. []),
      date_value = DString\<rparr>"

section \<open>Strings and numeric literals\<close>

lemma replace_first_occurrence:
  "a \<notin> set xs \<Longrightarrow> replace a b (xs @ a # ys) = xs @ b # ys"
  by (induction xs) auto

lemma digit_not_space: "is_digit c \<Longrightarrow> \<not> is_space c"
  by (auto simp: is_digit_def is_space_def)

lemma digits_no_comma: "list_all is_digit ds \<Longrightarrow> CHR '','' \<notin> set ds"
proof
  assume "list_all is_digit ds" and "CHR '','' \<in> set ds"
  then have "is_digit CHR '',''" by (simp add: list_all_iff)
  then show False by (simp add: is_digit_def)
qed

lemma takeWhile_no_digit:
  "t = [] \<or> \<not> is_digit (hd t) \<Longrightarrow> takeWhile is_digit t = [] \<and> dropWhile is_digit t = t"
  by (cases t) auto

lemma takeWhile_digits:
  "list_all is_digit ds \<Longrightarrow> t = [] \<or> \<not> is_digit (hd t) \<Longrightarrow> takeWhile is_digit (ds @ t) = ds"
  by (induction ds) (simp_all add: takeWhile_no_digit)

lemma dropWhile_digits:
  "list_all is_digit ds \<Longrightarrow> t = [] \<or> \<not> is_digit (hd t) \<Longrightarrow> dropWhile is_digit (ds @ t) = t"
  by (induction ds) (simp_all add: takeWhile_no_digit)

lemma trim_sandwich:
  "\<exists>l r. l @ trim s @ r = s \<and> list_all is_space l \<and> list_all is_space r"
proof -
  let ?u = "dropWhile is_space s"
  let ?r = "rev (takeWhile is_space (rev ?u))"
  have b: "trim s @ ?r = ?u"
    unfolding trim_def by (simp flip: rev_append)
  have "takeWhile is_space s @ trim s @ ?r = s"
    unfolding b by simp
  moreover have "list_all is_space (takeWhile is_space s)"
    unfolding list_all_iff by (meson set_takeWhileD)
  moreover have "list_all is_space ?r"
    unfolding list_all_iff set_rev by (meson set_takeWhileD)
  ultimately show ?thesis by blast
qed

lemma trim_dash_chars:
  assumes "trim s = ''-''" and "c \<in> set s"
  shows "is_space c \<or> c = CHR ''-''"
proof -
  obtain l r where eq: "l @ trim s @ r = s" and l: "list_all is_space l" and r: "list_all is_space r"
    using trim_sandwich by blast
  have "set s = set (l @ trim s @ r)" using eq by simp
  then have "set s = set l \<union> {CHR ''-''} \<union> set r" using assms(1) by simp
  with assms(2) l r show ?thesis by (auto simp: list_all_iff)
qed

section \<open>Doubles\<close>

lemma floor_rat_numeral: "\<lfloor>numeral a / numeral b :: rat\<rfloor> = numeral a div numeral b"
proof -
  have "\<lfloor>of_int (numeral a) / of_int (numeral b) :: rat\<rfloor> = numeral a div numeral b"
    by (rule floor_divide_of_int_eq)
  then show ?thesis by (simp only: of_int_numeral)
qed

lemma pow2_power_int: "pow2 e = 2 powi e"
  by (simp add: pow2_def power_int_def power_one_over)

lemma pow2_pos: "0 < pow2 e"
  by (simp add: pow2_power_int)

lemma pow2_mono: "a \<le> b \<Longrightarrow> pow2 a \<le> pow2 b"
  by (simp add: pow2_power_int power_int_increasing)

lemma binary_exponent_eq:
  assumes lo: "e = - 1022 \<or> pow2 e \<le> a" and hi: "a < pow2 (e + 1)"
    and r: "- 1022 \<le> e" "e \<le> 1023"
  shows "binary_exponent a = e"
proof -
  let ?cs = "map (\<lambda>k. int k - 1022) [0..<2046]"
  let ?i = "nat (e + 1022)"
  have i: "?i < length ?cs" using r by simp
  have "?i < 2046" using r by simp
  then have ci: "?cs ! ?i = e" using r by simp
  have before: "\<not> a < pow2 (?cs ! j + 1)" if "j < ?i" for j
  proof -
    from that r have j: "j < 2046" by simp
    then have cj: "?cs ! j = int j - 1022" by simp
    from that have "int j - 1022 + 1 \<le> e" by simp
    then have le: "pow2 (?cs ! j + 1) \<le> pow2 e" unfolding cj by (rule pow2_mono)
    from that have "e \<noteq> - 1022" by simp
    with lo have "pow2 e \<le> a" by simp
    with le show ?thesis by simp
  qed
  have hi': "a < pow2 (?cs ! ?i + 1)" unfolding ci by (rule hi)
  have all: "\<forall>j<?i. \<not> a < pow2 (?cs ! j + 1)" using before by blast
  have "find (\<lambda>e. a < pow2 (e + 1)) ?cs = Some e"
    unfolding find_Some_iff
    by (intro exI [of _ ?i] conjI) (rule i, rule hi', rule ci [symmetric], rule all)
  then show ?thesis by (simp add: binary_exponent_def)
qed

lemma round_half_even_int: "round_half_even (of_int n) = n"
  by (simp add: round_half_even_def)

text \<open>A value in the binade of \<open>2^e\<close> that is a multiple of \<open>2^(e - 52)\<close> is a double.\<close>

lemma to_double_exact:
  assumes lo: "pow2 e \<le> \<bar>x\<bar>" and hi: "\<bar>x\<bar> < pow2 (e + 1)"
    and r: "- 1022 \<le> e" "e \<le> 1023" and n: "\<bar>x\<bar> = of_int n * pow2 (e - 52)"
  shows "to_double x = Num x"
proof -
  have be: "binary_exponent \<bar>x\<bar> = e" using lo hi r by (intro binary_exponent_eq) auto
  have x0: "x \<noteq> 0" using lo pow2_pos [of e] by auto
  have q: "\<bar>x\<bar> / pow2 (e - 52) = of_int n"
    using n pow2_pos [of "e - 52"] by simp
  have "pow2 (e + 1) \<le> pow2 1024" using r by (intro pow2_mono) simp
  with hi have lt: "\<not> pow2 1024 \<le> \<bar>x\<bar>" by simp
  show ?thesis
    unfolding to_double_def Let_def be q round_half_even_int
    using x0 lt n [symmetric] by auto
qed

text \<open>The double of a positive value in the binade of \<open>2^e\<close>, from the rounded multiple.\<close>

lemma to_double_rounded:
  assumes pos: "0 < x" and lo: "pow2 e \<le> x" and hi: "x < pow2 (e + 1)"
    and r: "- 1022 \<le> e" "e \<le> 1023"
    and n: "round_half_even (x / pow2 (e - 52)) = n" and fin: "of_int n * pow2 (e - 52) < pow2 1024"
  shows "to_double x = Num (of_int n * pow2 (e - 52))"
proof -
  have a: "\<bar>x\<bar> = x" using pos by simp
  have be: "binary_exponent x = e" using lo hi r by (intro binary_exponent_eq) auto
  show ?thesis
    unfolding to_double_def Let_def a be n using pos fin by simp
qed

lemma to_double_not_NaN: "\<not> isNaN (to_double x)"
  by (simp add: to_double_def Let_def)

lemma to_double_example_exact: "to_double (25 / 2) = Num (25 / 2)"
  by (rule to_double_exact [where e = 3 and n = "25 * 2 ^ 48"]) (simp_all add: pow2_def)

lemma to_double_example_rounded: "to_double (30864 / 25) = Num (2714826150374277 / 2199023255552)"
proof -
  have f: "\<lfloor>135741307518713856 / 25 :: rat\<rfloor> = 5429652300748554"
    by (simp add: floor_rat_numeral)
  have n: "round_half_even (30864 / 25 / pow2 (10 - 52)) = 5429652300748554"
    by (simp add: round_half_even_def pow2_def f Let_def)
  have "to_double (30864 / 25) = Num (of_int 5429652300748554 * pow2 (10 - 52))"
    by (rule to_double_rounded [OF _ _ _ _ _ n]) (simp_all add: pow2_def)
  then show ?thesis by (simp add: pow2_def)
qed

section \<open>parseNumeric\<close>

lemma replace_absent: "a \<notin> set xs \<Longrightarrow> replace a b xs = xs"
  by (induction xs) auto

lemma exponent_part_none:
  "t = [] \<or> (hd t \<noteq> CHR ''e'' \<and> hd t \<noteq> CHR ''E'') \<Longrightarrow> exponent_part t = (0, t)"
  by (cases t) (auto simp: exponent_part_def)

lemma unsigned_decimal_fraction:
  assumes ip: "list_all is_digit ip" and fp: "list_all is_digit fp" and ne: "ip \<noteq> []"
  shows "unsigned_decimal (ip @ CHR ''.'' # fp) =
           Some (of_nat (digits_val ip) + of_nat (digits_val fp) / 10 ^ length fp, [])"
proof -
  have dot: "\<not> is_digit CHR ''.''" by (simp add: is_digit_def)
  have t1: "takeWhile is_digit (ip @ CHR ''.'' # fp) = ip"
    using takeWhile_digits [OF ip, of "CHR ''.'' # fp"] dot by simp
  have d1: "dropWhile is_digit (ip @ CHR ''.'' # fp) = CHR ''.'' # fp"
    using dropWhile_digits [OF ip, of "CHR ''.'' # fp"] dot by simp
  have t2: "takeWhile is_digit fp = fp"
    using takeWhile_digits [OF fp, of "[]"] by simp
  have d2: "dropWhile is_digit fp = []"
    using dropWhile_digits [OF fp, of "[]"] by simp
  have e: "exponent_part [] = (0, [])" by (simp add: exponent_part_def)
  show ?thesis
    by (simp add: unsigned_decimal_def t1 d1 t2 d2 e ne scale10_def)
qed

lemma unsigned_decimal_integer:
  assumes ip: "list_all is_digit ip" and ne: "ip \<noteq> []"
  shows "unsigned_decimal ip = Some (of_nat (digits_val ip), [])"
proof -
  have t1: "takeWhile is_digit ip = ip"
    using takeWhile_digits [OF ip, of "[]"] by simp
  have d1: "dropWhile is_digit ip = []"
    using dropWhile_digits [OF ip, of "[]"] by simp
  show ?thesis
    by (simp add: unsigned_decimal_def t1 d1 ne)
qed

text \<open>A numeral: an optional minus sign, digits, and possibly a point and more digits.\<close>

lemma parseFloat_numeral:
  assumes ip: "list_all is_digit ip" and ne: "ip \<noteq> []"
    and u: "unsigned_decimal (ip @ r) = Some (x, rest)"
  shows "parseFloat ((if neg then ''-'' else []) @ ip @ r) = to_double (if neg then - x else x)"
proof -
  let ?s = "(if neg then ''-'' else []) @ ip @ r"
  obtain c cs where ipc: "ip = c # cs" using ne by (cases ip) auto
  with ip have dc: "is_digit c" by simp
  then have sp: "\<not> is_space c" by (rule digit_not_space)
  from dc have sg: "c \<noteq> CHR ''-''" "c \<noteq> CHR ''+''" "c \<noteq> CHR ''I''"
    by (auto simp: is_digit_def)
  have ms: "\<not> is_space CHR ''-''" by (simp add: is_space_def)
  have ts: "trimStart ?s = ?s"
    using sp ms by (simp add: trimStart_def ipc)
  have ss: "strip_sign ?s = (neg, ip @ r)"
    using sg by (simp add: strip_sign_def ipc)
  have inf: "take 8 (ip @ r) \<noteq> ''Infinity''"
    using sg by (simp add: ipc)
  have "str_decimal_literal ?s = Some (to_double (if neg then - x else x), rest)"
    unfolding str_decimal_literal_def ss using inf u by simp
  then show ?thesis
    unfolding parseFloat_def ts by simp
qed

lemma numeral_not_dash:
  assumes ip: "list_all is_digit ip" and ne: "ip \<noteq> []"
  shows "trim ((if neg then ''-'' else []) @ ip @ r) \<noteq> ''-''"
proof -
  obtain c cs where ipc: "ip = c # cs" using ne by (cases ip) auto
  with ip have dc: "is_digit c" by simp
  have "c \<in> set ((if neg then ''-'' else []) @ ip @ r)" by (simp add: ipc)
  moreover have "\<not> is_space c" using dc by (rule digit_not_space)
  moreover have "c \<noteq> CHR ''-''" using dc by (auto simp: is_digit_def)
  ultimately show ?thesis using trim_dash_chars by blast
qed

lemma parseNumeric_comma_decimal:
  assumes ip: "list_all is_digit ip" and fp: "list_all is_digit fp" and ne: "ip \<noteq> []"
  shows "parseNumeric (Some ((if neg then ''-'' else []) @ ip @ CHR '','' # fp)) =
           (Some (to_double (comma_decimal_value neg ip fp)), [])"
proof -
  let ?sg = "(if neg then ''-'' else [])"
  let ?s = "?sg @ ip @ CHR '','' # fp"
  have nd: "trim ?s \<noteq> ''-''" using ip ne by (rule numeral_not_dash)
  have "CHR '','' \<notin> set (?sg @ ip)" using digits_no_comma [OF ip] by simp
  then have "replace CHR '','' CHR ''.'' ((?sg @ ip) @ CHR '','' # fp) = (?sg @ ip) @ CHR ''.'' # fp"
    by (rule replace_first_occurrence)
  then have r: "replace CHR '','' CHR ''.'' ?s = ?sg @ ip @ CHR ''.'' # fp" by simp
  have pf: "parseFloat (?sg @ ip @ CHR ''.'' # fp) = to_double (comma_decimal_value neg ip fp)"
    unfolding comma_decimal_value_def Let_def
    by (rule parseFloat_numeral [OF ip ne unsigned_decimal_fraction [OF ip fp ne]])
  have ne': "?s \<noteq> []" by simp
  show ?thesis
    using nd ne' by (simp add: parseNumeric_def r pf to_double_not_NaN del: append.simps)
qed

lemma parseNumeric_integer:
  assumes ip: "list_all is_digit ip" and ne: "ip \<noteq> []"
  shows "parseNumeric (Some ((if neg then ''-'' else []) @ ip)) =
           (Some (to_double (comma_decimal_value neg ip [])), [])"
proof -
  let ?sg = "(if neg then ''-'' else [])"
  let ?s = "?sg @ ip"
  have nd: "trim ?s \<noteq> ''-''" using numeral_not_dash [OF ip ne, of neg "[]"] by simp
  have "CHR '','' \<notin> set ?s" using digits_no_comma [OF ip] by simp
  then have r: "replace CHR '','' CHR ''.'' ?s = ?s" by (rule replace_absent)
  have u: "unsigned_decimal (ip @ []) = Some (of_nat (digits_val ip), [])"
    using unsigned_decimal_integer [OF ip ne] by simp
  have "parseFloat (?sg @ ip @ []) = to_double (if neg then - of_nat (digits_val ip) else of_nat (digits_val ip))"
    by (rule parseFloat_numeral [OF ip ne u])
  then have pf: "parseFloat ?s = to_double (comma_decimal_value neg ip [])"
    by (simp add: comma_decimal_value_def digits_val_def)
  have ne': "?s \<noteq> []" using ne by simp
  show ?thesis
    using nd ne' by (simp add: parseNumeric_def r pf to_double_not_NaN del: append.simps)
qed

lemma parseNumeric_no_literal:
  assumes sp: "\<not> is_space c" and dg: "\<not> is_digit c"
    and c: "c \<noteq> CHR ''+''" "c \<noteq> CHR ''-''" "c \<noteq> CHR ''.''" "c \<noteq> CHR '',''" "c \<noteq> CHR ''I''"
  shows "parseNumeric (Some (c # r)) = (None, [(Warn, FailedToConvert (c # r))])"
proof -
  let ?r = "replace CHR '','' CHR ''.'' r"
  have rp: "replace CHR '','' CHR ''.'' (c # r) = c # ?r" using c by simp
  have ts: "trimStart (c # ?r) = c # ?r" using sp by (simp add: trimStart_def)
  have ss: "strip_sign (c # ?r) = (False, c # ?r)" using c by (simp add: strip_sign_def)
  have inf: "take 8 (c # ?r) \<noteq> ''Infinity''" using c by simp
  have ud: "unsigned_decimal (c # ?r) = None" using dg c by (simp add: unsigned_decimal_def)
  have "str_decimal_literal (c # ?r) = None"
    unfolding str_decimal_literal_def ss using inf ud by simp
  then have pf: "parseFloat (c # ?r) = NaN"
    unfolding parseFloat_def ts by simp
  have "c \<in> set (c # r)" by simp
  then have nd: "trim (c # r) \<noteq> ''-''" using trim_dash_chars sp c(2) by blast
  show ?thesis
    using nd c(4) pf by (simp add: parseNumeric_def)
qed

lemma parseNumeric_cases:
  "parseNumeric None = (None, [])"
  "s = [] \<or> trim s = ''-'' \<Longrightarrow> parseNumeric (Some s) = (None, [])"
  "s \<noteq> [] \<Longrightarrow> trim s \<noteq> ''-'' \<Longrightarrow>
     parseNumeric (Some s) =
       (if isNaN (parseFloat (replace CHR '','' CHR ''.'' s)) then (None, [(Warn, FailedToConvert s)])
        else (Some (parseFloat (replace CHR '','' CHR ''.'' s)), []))"
  by (auto simp: parseNumeric_def Let_def)

text \<open>
  Claim C2, amended at the empty string and at a dash inside white space. \<open>parseNumeric\<close>
  returns \<open>null\<close> and logs nothing for absent input, for the empty string and for a string
  that trims to a lone dash. For every other string it replaces the comma by a period and
  parses the text as a floating-point number (\<open>parseFloat\<close>), returning \<open>null\<close> with a
  warning when the result is not a number. So every decimal numeral written with a comma
  (an optional minus sign, digits, and possibly a comma and more digits) gives the double
  nearest to its value, and a text that starts with neither white space, a digit, a
  sign, a point, a comma nor \<open>I\<close> gives \<open>null\<close> and a warning. The function is total: no
  input of its declared type makes it throw.
\<close>

theorem parseNumeric_amended:
  "parseNumeric None = (None, []) \<and>
   (\<forall>s. s = [] \<or> trim s = ''-'' \<longrightarrow> parseNumeric (Some s) = (None, [])) \<and>
   (\<forall>s. s \<noteq> [] \<and> trim s \<noteq> ''-'' \<longrightarrow>
      parseNumeric (Some s) =
        (if isNaN (parseFloat (replace CHR '','' CHR ''.'' s)) then (None, [(Warn, FailedToConvert s)])
         else (Some (parseFloat (replace CHR '','' CHR ''.'' s)), []))) \<and>
   (\<forall>neg ip fp. ip \<noteq> [] \<and> list_all is_digit ip \<and> list_all is_digit fp \<longrightarrow>
      parseNumeric (Some ((if neg then ''-'' else []) @ ip @ CHR '','' # fp)) =
        (Some (to_double (comma_decimal_value neg ip fp)), []) \<and>
      parseNumeric (Some ((if neg then ''-'' else []) @ ip)) =
        (Some (to_double (comma_decimal_value neg ip [])), [])) \<and>
   (\<forall>c r. \<not> is_space c \<and> \<not> is_digit c \<and> c \<notin> set ''+-.,I'' \<longrightarrow>
      parseNumeric (Some (c # r)) = (None, [(Warn, FailedToConvert (c # r))]))"
proof (intro conjI allI impI)
  show "parseNumeric None = (None, [])" by (rule parseNumeric_cases(1))
next
  fix s assume "s = [] \<or> trim s = ''-''"
  then show "parseNumeric (Some s) = (None, [])" by (rule parseNumeric_cases(2))
next
  fix s assume "s \<noteq> [] \<and> trim s \<noteq> ''-''"
  then show "parseNumeric (Some s) =
        (if isNaN (parseFloat (replace CHR '','' CHR ''.'' s)) then (None, [(Warn, FailedToConvert s)])
         else (Some (parseFloat (replace CHR '','' CHR ''.'' s)), []))"
    using parseNumeric_cases(3) by blast
next
  fix neg ip fp
  assume a: "ip \<noteq> [] \<and> list_all is_digit ip \<and> list_all is_digit fp"
  then show "parseNumeric (Some ((if neg then ''-'' else []) @ ip @ CHR '','' # fp)) =
        (Some (to_double (comma_decimal_value neg ip fp)), [])"
    using parseNumeric_comma_decimal by blast
  from a show "parseNumeric (Some ((if neg then ''-'' else []) @ ip)) =
        (Some (to_double (comma_decimal_value neg ip [])), [])"
    using parseNumeric_integer by blast
next
  fix c r
  assume a: "\<not> is_space c \<and> \<not> is_digit c \<and> c \<notin> set ''+-.,I''"
  then have "c \<noteq> CHR ''+''" "c \<noteq> CHR ''-''" "c \<noteq> CHR ''.''" "c \<noteq> CHR '',''" "c \<noteq> CHR ''I''"
    by auto
  with a show "parseNumeric (Some (c # r)) = (None, [(Warn, FailedToConvert (c # r))])"
    using parseNumeric_no_literal by blast
qed

text \<open>The amended claim at a lone dash, at \<open>1234,56\<close> (whose double is
  \<open>2714826150374277 / 2^41\<close>, the number that the literal \<open>1234.56\<close> denotes), at \<open>-12,5\<close>, at
  \<open>48\<close> and at a text with no number.\<close>

theorem parseNumeric_amended_witness:
  "parseNumeric (Some ''-'') = (None, []) \<and>
   parseNumeric (Some ''1234,56'') = (Some (to_double (30864 / 25)), []) \<and>
   to_double (30864 / 25) = Num (2714826150374277 / 2199023255552) \<and>
   parseNumeric (Some ''-12,5'') = (Some (Num (- 25 / 2)), []) \<and>
   parseNumeric (Some ''48'') = (Some (Num 48), []) \<and>
   parseNumeric (Some ''n/a'') = (None, [(Warn, FailedToConvert ''n/a'')])"
proof -
  note inst = parseNumeric_amended [THEN conjunct2, THEN conjunct2, THEN conjunct2]
  note numeral = inst [THEN conjunct1, rule_format]
  note garbage = inst [THEN conjunct2, rule_format]
  have d: "list_all is_digit ''1234''" "list_all is_digit ''56''" "list_all is_digit ''12''"
    "list_all is_digit ''5''" "list_all is_digit ''48''" "\<not> is_digit CHR ''n''" "\<not> is_space CHR ''n''"
    by (simp_all add: is_digit_def is_space_def)
  have "trim ''-'' = ''-''" by (simp add: trim_def is_space_def)
  then have 1: "parseNumeric (Some ''-'') = (None, [])"
    using parseNumeric_amended by blast
  have v: "comma_decimal_value False ''1234'' ''56'' = 30864 / 25"
    "comma_decimal_value True ''12'' ''5'' = - 25 / 2"
    "comma_decimal_value False ''48'' [] = 48"
    by (simp_all add: comma_decimal_value_def digits_val_def digit_val_def)
  have 2: "parseNumeric (Some ''1234,56'') = (Some (to_double (30864 / 25)), [])"
    using numeral [of "''1234''" "''56''" False, THEN conjunct1] d by (simp add: v)
  have 3: "parseNumeric (Some ''-12,5'') = (Some (to_double (- 25 / 2)), [])"
    using numeral [of "''12''" "''5''" True, THEN conjunct1] d by (simp add: v)
  have 4: "parseNumeric (Some ''48'') = (Some (to_double 48), [])"
    using numeral [of "''48''" "''5''" False, THEN conjunct2] d by (simp add: v)
  have 5: "parseNumeric (Some ''n/a'') = (None, [(Warn, FailedToConvert ''n/a'')])"
    using garbage [of "CHR ''n''" "''/a''"] d by simp
  have e1: "to_double (- 25 / 2) = Num (- 25 / 2)"
    by (rule to_double_exact [where e = 3 and n = "25 * 2 ^ 48"]) (simp_all add: pow2_def)
  have e2: "to_double 48 = Num 48"
    by (rule to_double_exact [where e = 5 and n = "3 * 2 ^ 51"]) (simp_all add: pow2_def)
  from 1 2 3 4 5 e1 e2 to_double_example_rounded show ?thesis by simp
qed

text \<open>
  Claim C2 as stated fails at the empty string and at a dash inside white space: neither is
  absent or a lone dash, the parse of each is \<open>NaN\<close>, so \<open>parseLocaleNumber\<close> as specified
  logs a warning; \<open>parseNumeric\<close> returns \<open>null\<close> without one.
\<close>

theorem parseNumeric_counterexample:
  "parseNumeric (Some []) = (None, []) \<and>
   parseLocaleNumber_spec (Some []) = (None, [(Warn, FailedToConvert [])]) \<and>
   parseNumeric (Some '' - '') = (None, []) \<and>
   parseLocaleNumber_spec (Some '' - '') = (None, [(Warn, FailedToConvert '' - '')])"
  by (simp add: parseNumeric_def parseLocaleNumber_spec_def parseFloat_def trimStart_def trim_def
      is_space_def str_decimal_literal_def strip_sign_def unsigned_decimal_def is_digit_def)

section \<open>Digits of a number\<close>

lemma digit_char_is_digit: "d < 10 \<Longrightarrow> is_digit (digit_char d)"
  unfolding digit_char_def is_digit_def by (rule nth_mem) simp

lemma string_of_nat_small: "n < 10 \<Longrightarrow> string_of_nat n = [digit_char n]"
  by (subst string_of_nat.simps) simp

lemma string_of_nat_step:
  "10 \<le> n \<Longrightarrow> string_of_nat n = string_of_nat (n div 10) @ [digit_char (n mod 10)]"
  by (subst string_of_nat.simps) simp

lemma string_of_nat_digits: "list_all is_digit (string_of_nat n)"
proof (induction n rule: string_of_nat.induct)
  case (1 n)
  show ?case
  proof (cases "n < 10")
    case True
    then show ?thesis by (simp add: string_of_nat_small digit_char_is_digit)
  next
    case False
    then have "list_all is_digit (string_of_nat (n div 10))" using "1.IH" by simp
    moreover have "is_digit (digit_char (n mod 10))" by (simp add: digit_char_is_digit)
    ultimately show ?thesis using False by (simp add: string_of_nat_step)
  qed
qed

lemma string_of_nat_not_empty: "string_of_nat n \<noteq> []"
  by (subst string_of_nat.simps) simp

lemma length_string_of_nat_2: "10 \<le> n \<Longrightarrow> n < 100 \<Longrightarrow> length (string_of_nat n) = 2"
  by (simp add: string_of_nat_step string_of_nat_small)

lemma length_string_of_nat_4: "1000 \<le> n \<Longrightarrow> n < 10000 \<Longrightarrow> length (string_of_nat n) = 4"
proof -
  assume a: "1000 \<le> n" "n < 10000"
  then have "10 \<le> n" "10 \<le> n div 10" "10 \<le> n div 10 div 10" "n div 10 div 10 div 10 < 10"
    by simp_all
  then show ?thesis by (simp only: string_of_nat_step string_of_nat_small) simp
qed

lemma length_padStart_2:
  "n < 100 \<Longrightarrow> length (padStart 2 CHR ''0'' (string_of_nat n)) = 2"
proof (cases "n < 10")
  case True
  then show ?thesis by (simp add: padStart_def string_of_nat_small)
next
  case False
  assume "n < 100"
  with False show ?thesis by (simp add: padStart_def length_string_of_nat_2)
qed

lemma padStart_digits:
  "list_all is_digit s \<Longrightarrow> list_all is_digit (padStart n CHR ''0'' s)"
proof -
  have "is_digit CHR ''0''" by (simp add: is_digit_def)
  then show "list_all is_digit s \<Longrightarrow> list_all is_digit (padStart n CHR ''0'' s)"
    by (auto simp: padStart_def list_all_iff)
qed

lemma String_of_number_nat:
  "d < 10 ^ 21 \<Longrightarrow> String_of_number rt (Num (of_nat d)) = string_of_nat d"
proof -
  assume "d < 10 ^ 21"
  then have "(of_nat d :: rat) < of_nat (10 ^ 21)" by (simp only: of_nat_less_iff)
  then have "\<bar>of_nat d :: rat\<bar> < 10 ^ 21" by simp
  then show ?thesis by (simp add: String_of_number_def string_of_int_def)
qed

lemma String_of_number_int:
  "\<bar>y\<bar> < 10 ^ 21 \<Longrightarrow> String_of_number rt (Num (of_int y)) = string_of_int y"
proof -
  assume "\<bar>y\<bar> < 10 ^ 21"
  then have "(of_int \<bar>y\<bar> :: rat) < of_int (10 ^ 21)" by (simp only: of_int_less_iff)
  then have "\<bar>of_int y :: rat\<bar> < 10 ^ 21" by simp
  then show ?thesis by (simp add: String_of_number_def)
qed

lemma digit_val_digit_char: "d < 10 \<Longrightarrow> digit_val (digit_char d) = d"
proof -
  assume "d < 10"
  then have "d \<in> {0, 1, 2, 3, 4, 5, 6, 7, 8, 9}" by auto
  then show ?thesis by (auto simp: digit_char_def digit_val_def)
qed

lemma digits_val_snoc: "digits_val (ds @ [c]) = 10 * digits_val ds + digit_val c"
  by (simp add: digits_val_def)

lemma digits_val_zeros: "digits_val (replicate k CHR ''0'' @ ds) = digits_val ds"
  by (induction k) (simp_all add: digits_val_def digit_val_def)

lemma digits_val_string_of_nat: "digits_val (string_of_nat n) = n"
proof (induction n rule: string_of_nat.induct)
  case (1 n)
  show ?case
  proof (cases "n < 10")
    case True
    then show ?thesis by (simp add: string_of_nat_small digits_val_def digit_val_digit_char)
  next
    case False
    then have "digits_val (string_of_nat (n div 10)) = n div 10" using "1.IH" by simp
    then show ?thesis using False
      by (simp add: string_of_nat_step digits_val_snoc digit_val_digit_char)
  qed
qed

lemma digits_val_padStart: "digits_val (padStart k CHR ''0'' (string_of_nat n)) = n"
  by (simp add: padStart_def digits_val_zeros digits_val_string_of_nat)

lemma length_string_of_nat_5: "10000 \<le> n \<Longrightarrow> 4 < length (string_of_nat n)"
proof -
  assume a: "10000 \<le> n"
  then have "10 \<le> n" "10 \<le> n div 10" "10 \<le> n div 10 div 10" "10 \<le> n div 10 div 10 div 10"
    by simp_all
  then have "string_of_nat n = string_of_nat (n div 10 div 10 div 10 div 10) @
      [digit_char (n div 10 div 10 div 10 mod 10), digit_char (n div 10 div 10 mod 10),
       digit_char (n div 10 mod 10), digit_char (n mod 10)]"
    by (simp only: string_of_nat_step [of n] string_of_nat_step [of "n div 10"]
        string_of_nat_step [of "n div 10 div 10"] string_of_nat_step [of "n div 10 div 10 div 10"]) simp
  moreover have "0 < length (string_of_nat (n div 10 div 10 div 10 div 10))"
    using string_of_nat_not_empty by simp
  ultimately show ?thesis by simp
qed

section \<open>formatDate\<close>

lemma formatDate_valid:
  assumes "d < 10 ^ 21" "m + 1 < 10 ^ 21" "\<bar>y\<bar> < 10 ^ 21"
  shows "formatDate rt (DDate (LocalDate d m y)) =
           Some (padStart 2 CHR ''0'' (string_of_nat d) @ ''.'' @
                 padStart 2 CHR ''0'' (string_of_nat (m + 1)) @ ''.'' @ string_of_int y)"
proof -
  have "(of_nat m + 1 :: rat) = of_nat (m + 1)" by simp
  then have "String_of_number rt (Num (of_nat m + 1)) = string_of_nat (m + 1)"
    using String_of_number_nat [OF assms(2), of rt] by (simp only:)
  then show ?thesis
    using String_of_number_nat [OF assms(1)] String_of_number_int [OF assms(3)]
    by (simp add: formatDate_def)
qed

lemma formatDate_parts:
  assumes a: "1 \<le> d" "d \<le> 31" "m \<le> 11" "1000 \<le> y" "y \<le> 275760"
  shows "\<exists>dd mm yyyy.
      formatDate rt (DDate (LocalDate d m y)) = Some (dd @ ''.'' @ mm @ ''.'' @ yyyy) \<and>
      length dd = 2 \<and> list_all is_digit dd \<and> digits_val dd = d \<and>
      length mm = 2 \<and> list_all is_digit mm \<and> digits_val mm = m + 1 \<and>
      list_all is_digit yyyy \<and> int (digits_val yyyy) = y \<and>
      (y \<le> 9999 \<longrightarrow> length yyyy = 4) \<and> (9999 < y \<longrightarrow> 4 < length yyyy)"
proof -
  let ?dd = "padStart 2 CHR ''0'' (string_of_nat d)"
  let ?mm = "padStart 2 CHR ''0'' (string_of_nat (m + 1))"
  let ?yy = "string_of_nat (nat y)"
  have y: "string_of_int y = ?yy" using a by (simp add: string_of_int_def)
  have "d < 10 ^ 21" "m + 1 < 10 ^ 21" "\<bar>y\<bar> < 10 ^ 21" using a by (simp_all add: abs_less_iff)
  then have 1: "formatDate rt (DDate (LocalDate d m y)) = Some (?dd @ ''.'' @ ?mm @ ''.'' @ ?yy)"
    unfolding y [symmetric] by (rule formatDate_valid)
  have 2: "length ?dd = 2" "length ?mm = 2" using a by (simp_all add: length_padStart_2)
  have 3: "list_all is_digit ?dd" "list_all is_digit ?mm" "list_all is_digit ?yy"
    by (simp_all add: padStart_digits string_of_nat_digits)
  have 4: "digits_val ?dd = d" "digits_val ?mm = m + 1" by (rule digits_val_padStart)+
  have 5: "int (digits_val ?yy) = y" using a by (simp add: digits_val_string_of_nat)
  have 6: "length ?yy = 4" if "y \<le> 9999"
    using a that by (intro length_string_of_nat_4) simp_all
  have 7: "4 < length ?yy" if "9999 < y"
    using that by (intro length_string_of_nat_5) simp
  from 1 2 3 4 5 6 7 show ?thesis by blast
qed

text \<open>
  Claim C7, amended for the years above 9999. \<open>formatDate\<close> returns \<open>null\<close> for \<open>null\<close>; a
  string is formatted as the date that \<open>new Date\<close> reads from it. For a date of day \<open>d\<close>,
  month index \<open>m\<close> and year \<open>y\<close> from 1000 on, the result is \<open>DD.MM.YYYY\<close>: two digits for the
  day, two digits for the month \<open>m + 1\<close>, each zero-padded, and the digits of the year,
  joined by points. The year takes four digits, which makes the form fixed-width, up to the
  year 9999, and more than four above it. In particular a date representing 2024-03-05,
  given as a \<open>Date\<close> or as a string that \<open>new Date\<close> reads as that day, gives \<open>05.03.2024\<close>.
\<close>

theorem formatDate_amended:
  "formatDate rt DNull = None \<and>
   (\<forall>s. s \<noteq> [] \<longrightarrow> formatDate rt (DString s) = formatDate rt (DDate (date_of_string rt s))) \<and>
   (\<forall>d m y. 1 \<le> d \<and> d \<le> 31 \<and> m \<le> 11 \<and> 1000 \<le> y \<and> y \<le> 275760 \<longrightarrow>
      (\<exists>dd mm yyyy.
         formatDate rt (DDate (LocalDate d m y)) = Some (dd @ ''.'' @ mm @ ''.'' @ yyyy) \<and>
         length dd = 2 \<and> list_all is_digit dd \<and> digits_val dd = d \<and>
         length mm = 2 \<and> list_all is_digit mm \<and> digits_val mm = m + 1 \<and>
         list_all is_digit yyyy \<and> int (digits_val yyyy) = y \<and>
         (y \<le> 9999 \<longrightarrow> length yyyy = 4) \<and> (9999 < y \<longrightarrow> 4 < length yyyy))) \<and>
   formatDate rt (DDate (LocalDate 5 2 2024)) = Some ''05.03.2024'' \<and>
   (\<forall>s. s \<noteq> [] \<and> date_of_string rt s = LocalDate 5 2 2024 \<longrightarrow>
      formatDate rt (DString s) = Some ''05.03.2024'')"
proof -
  have e: "formatDate rt (DDate (LocalDate 5 2 2024)) = Some ''05.03.2024''"
    by (simp add: formatDate_def String_of_number_def string_of_int_def string_of_nat.simps
        digit_char_def padStart_def)
  have s: "formatDate rt (DString s) = formatDate rt (DDate (date_of_string rt s))" if "s \<noteq> []" for s
    using that by (simp add: formatDate_def)
  have "formatDate rt DNull = None" by (simp add: formatDate_def)
  moreover have "\<forall>s. s \<noteq> [] \<longrightarrow> formatDate rt (DString s) = formatDate rt (DDate (date_of_string rt s))"
    using s by blast
  moreover have "\<forall>s. s \<noteq> [] \<and> date_of_string rt s = LocalDate 5 2 2024 \<longrightarrow>
      formatDate rt (DString s) = Some ''05.03.2024''"
    using s e by simp
  ultimately show ?thesis
    using e formatDate_parts [of _ _ _ rt] by (intro conjI allI impI) blast+
qed

text \<open>The amended claim at the string \<open>2024-03-05\<close>, at 31 December 1999 and at 1 January
  10000.\<close>

theorem formatDate_amended_witness:
  "formatDate example_runtime DNull = None \<and>
   formatDate example_runtime (DString ''2024-03-05'') = Some ''05.03.2024'' \<and>
   (\<exists>dd mm yyyy.
      formatDate example_runtime (DDate (LocalDate 31 11 1999)) = Some (dd @ ''.'' @ mm @ ''.'' @ yyyy) \<and>
      length dd = 2 \<and> digits_val dd = 31 \<and> length mm = 2 \<and> digits_val mm = 12 \<and>
      length yyyy = 4 \<and> digits_val yyyy = 1999) \<and>
   (\<exists>dd mm yyyy.
      formatDate example_runtime (DDate (LocalDate 1 0 10000)) = Some (dd @ ''.'' @ mm @ ''.'' @ yyyy) \<and>
      4 < length yyyy)"
proof -
  note inst = formatDate_amended [of example_runtime]
  have d: "date_of_string example_runtime ''2024-03-05'' = LocalDate 5 2 2024"
    by (simp add: example_runtime_def)
  have 1: "formatDate example_runtime (DString ''2024-03-05'') = Some ''05.03.2024''"
    using inst d by simp
  have h: "(1::nat) \<le> 31 \<and> (31::nat) \<le> 31 \<and> (11::nat) \<le> 11 \<and> 1000 \<le> (1999::int) \<and> (1999::int) \<le> 275760"
    "(1::nat) \<le> 1 \<and> (1::nat) \<le> 31 \<and> (0::nat) \<le> 11 \<and> 1000 \<le> (10000::int) \<and> (10000::int) \<le> 275760"
    by simp_all
  note dates = inst [THEN conjunct2, THEN conjunct2, THEN conjunct1, rule_format]
  have 2: "\<exists>dd mm yyyy.
      formatDate example_runtime (DDate (LocalDate 31 11 1999)) = Some (dd @ ''.'' @ mm @ ''.'' @ yyyy) \<and>
      length dd = 2 \<and> digits_val dd = 31 \<and> length mm = 2 \<and> digits_val mm = 12 \<and>
      length yyyy = 4 \<and> digits_val yyyy = 1999"
    using dates [OF h(1)] by fastforce
  have 3: "\<exists>dd mm yyyy.
      formatDate example_runtime (DDate (LocalDate 1 0 10000)) = Some (dd @ ''.'' @ mm @ ''.'' @ yyyy) \<and>
      4 < length yyyy"
    using dates [OF h(2)] by fastforce
  from inst 1 2 3 show ?thesis by blast
qed

text \<open>
  Claim C7 as stated fails for a date after the year 9999, where no four-digit year
  exists: 5 March 10000 gives eleven characters, not the fixed-width form \<open>DD.MM.YYYY\<close>.
\<close>

theorem formatDate_counterexample:
  "formatDate example_runtime (DDate (LocalDate 5 2 10000)) = Some ''05.03.10000''"
  by (simp add: formatDate_def String_of_number_def string_of_int_def string_of_nat.simps
      digit_char_def padStart_def)

section \<open>formatNumber\<close>

lemma toFixed_zero: "toFixed rt (Num 0) 2 = ''0.00''"
proof -
  have n: "nat \<lfloor>\<bar>0 :: rat\<bar> * 10 ^ 2 + 1 / 2\<rfloor> = 0" by simp
  have s: "string_of_nat 0 = ''0''" by (simp add: string_of_nat_small digit_char_def)
  have p: "padStart (2 + 1) CHR ''0'' ''0'' = ''000''" by (simp add: padStart_def eval_nat_numeral)
  show ?thesis unfolding toFixed_def Let_def js_number.case n s p by simp
qed

lemma toFixed_example: "toFixed rt (Num (2469 / 2)) 2 = ''1234.50''"
proof -
  have n: "nat \<lfloor>\<bar>2469 / 2 :: rat\<bar> * 10 ^ 2 + 1 / 2\<rfloor> = 123450"
    by (simp add: floor_rat_numeral)
  have s: "string_of_nat 123450 = ''123450''"
    by (simp add: string_of_nat.simps digit_char_def)
  have p: "padStart (2 + 1) CHR ''0'' ''123450'' = ''123450''" by (simp add: padStart_def)
  show ?thesis unfolding toFixed_def Let_def js_number.case n s p by simp
qed

text \<open>
  Claim C1 at its failing input. \<open>Number(null)\<close> is 0, not \<open>NaN\<close>: for \<open>null\<close> the function
  returns \<open>0,00\<close> where the claim (and the comment of the function) says \<open>null\<close>. For
  \<open>undefined\<close> it does return \<open>null\<close>, and 1234.5 gives \<open>1234,50\<close>.
\<close>

theorem formatNumber_null:
  "formatNumber rt JNull = Some ''0,00'' \<and>
   formatNumber rt JUndefined = None \<and>
   formatNumber rt (JNumber (Num (2469 / 2))) = Some ''1234,50''"
  by (simp add: formatNumber_def toFixed_zero toFixed_example)

lemma replace_point:
  "CHR ''.'' \<notin> set xs \<Longrightarrow> replace CHR ''.'' CHR '','' (xs @ CHR ''.'' # ys) = xs @ CHR '','' # ys"
  by (rule replace_first_occurrence)

lemma digits_no_point: "list_all is_digit ds \<Longrightarrow> CHR ''.'' \<notin> set ds"
proof
  assume "list_all is_digit ds" and "CHR ''.'' \<in> set ds"
  then have "is_digit CHR ''.''" by (simp add: list_all_iff)
  then show False by (simp add: is_digit_def)
qed

text \<open>For every finite number below \<open>10^21\<close> in magnitude the result has a sign if the
  number is negative, at least one digit, a comma and exactly two digits.\<close>

lemma formatNumber_two_fraction_digits:
  assumes "\<bar>r\<bar> < 10 ^ 21"
  shows "\<exists>ip d1 d2. formatNumber rt (JNumber (Num r)) =
            Some ((if r < 0 then ''-'' else []) @ ip @ [CHR '','', d1, d2]) \<and>
          ip \<noteq> [] \<and> list_all is_digit ip \<and> is_digit d1 \<and> is_digit d2"
proof -
  define n where "n = nat \<lfloor>\<bar>r\<bar> * 10 ^ 2 + 1 / 2\<rfloor>"
  define m where "m = padStart 3 CHR ''0'' (string_of_nat n)"
  define ip where "ip = take (length m - 2) m"
  define fp where "fp = drop (length m - 2) m"
  have md: "list_all is_digit m"
    unfolding m_def by (simp add: padStart_digits string_of_nat_digits)
  have ml: "3 \<le> length m"
    unfolding m_def padStart_def by simp
  have ipd: "list_all is_digit ip" and fpd: "list_all is_digit fp"
    using md unfolding ip_def fp_def list_all_iff by (auto dest: in_set_takeD in_set_dropD)
  have ipn: "ip \<noteq> []" using ml unfolding ip_def by auto
  have "length fp = 2" using ml unfolding fp_def by simp
  then obtain d1 d2 where fp: "fp = [d1, d2]"
    by (cases fp; cases "tl fp"; cases "tl (tl fp)") auto
  with fpd have d12: "is_digit d1" "is_digit d2" by simp_all
  have tf: "toFixed rt (Num r) 2 = (if r < 0 then ''-'' else []) @ ip @ CHR ''.'' # fp"
    using assms unfolding toFixed_def ip_def fp_def m_def n_def by (simp add: Let_def)
  have "CHR ''.'' \<notin> set ((if r < 0 then ''-'' else []) @ ip)"
    using digits_no_point [OF ipd] by simp
  then have "replace CHR ''.'' CHR '','' (((if r < 0 then ''-'' else []) @ ip) @ CHR ''.'' # fp) =
      ((if r < 0 then ''-'' else []) @ ip) @ CHR '','' # fp"
    by (rule replace_first_occurrence)
  then have "formatNumber rt (JNumber (Num r)) = Some ((if r < 0 then ''-'' else []) @ ip @ [CHR '','', d1, d2])"
    unfolding formatNumber_def using tf fp by simp
  with ipn ipd d12 show ?thesis by blast
qed

section \<open>The trace and the table under the basic steps\<close>

lemma emit_simps [simp]:
  "tariffs (emit e s) = tariffs s" "trace (emit e s) = trace s @ [e]"
  by (simp_all add: emit_def)

lemma logger_simps [simp]:
  "tariffs (logger l m s) = tariffs s" "trace (logger l m s) = trace s @ [Log l m]"
  by (simp_all add: logger_def)

lemma setTimeout_simps [simp]:
  "tariffs (setTimeout d s) = tariffs s"
  "trace (setTimeout d s) = trace s @ [SetTimeout (timer_delay d)]"
  by (simp_all add: setTimeout_def)

lemma isArray_case:
  "\<not> isArray v \<Longrightarrow> (case v of JArray ws \<Rightarrow> f ws | _ \<Rightarrow> g) = g"
  by (cases v) simp_all

lemma upsert_chunks_done: "length ts \<le> i \<Longrightarrow> upsert_chunks rt env ts i s = Inr s"
  by (subst upsert_chunks.simps) simp

section \<open>WBTariffsSync.sync on a response without a list\<close>

text \<open>
  Claim C3. When the request returns a response whose field
  \<open>response.data.warehouseList\<close> is missing or is not an array, \<open>sync\<close> only logs its start,
  issues the request and logs the warning about the data format: it sends no statement to
  the database, it returns normally (no error is thrown or logged), and the table is as
  before.
\<close>

theorem sync_invalid_data_format:
  assumes "response env = Inr body" and "\<not> isArray (warehouseList_of body)"
  shows "WBTariffsSync_sync rt env s =
           s\<lparr>trace := trace s @
                [Log Info (StartingSync (today env)),
                 HttpGet (''/tariffs/box?date='' @ today env),
                 Log Warn InvalidDataFormat]\<rparr> \<and>
         tariffs (WBTariffsSync_sync rt env s) = tariffs s"
proof -
  have "sync_try rt env (logger Info (StartingSync (today env)) s) =
          Inr (logger Warn InvalidDataFormat
                 (emit (HttpGet (''/tariffs/box?date='' @ today env))
                    (logger Info (StartingSync (today env)) s)))"
    using assms by (simp add: sync_try_def isArray_case)
  then have "WBTariffsSync_sync rt env s =
      logger Warn InvalidDataFormat
        (emit (HttpGet (''/tariffs/box?date='' @ today env))
           (logger Info (StartingSync (today env)) s))"
    by (simp add: WBTariffsSync_sync_def)
  then show ?thesis by (simp add: logger_def emit_def)
qed

text \<open>Claim C3 at a response whose \<open>response.data\<close> has no \<open>warehouseList\<close>.\<close>

theorem sync_invalid_data_format_witness:
  "WBTariffsSync_sync example_runtime
     \<lparr>today = ''2024-03-05'', clock = (\<lambda>n. 0),
      response = Inr (JObject [(''response'', JObject [(''data'', JObject [])])]),
      db_fault = (\<lambda>k. None)\<rparr>
     \<lparr>tariffs = [], trace = []\<rparr> =
   \<lparr>tariffs = [],
    trace = [Log Info (StartingSync ''2024-03-05''), HttpGet ''/tariffs/box?date=2024-03-05'',
             Log Warn InvalidDataFormat]\<rparr>"
proof -
  let ?body = "JObject [(''response'', JObject [(''data'', JObject [])])]"
  let ?env = "\<lparr>today = ''2024-03-05'', clock = (\<lambda>n. 0), response = Inr ?body,
                db_fault = (\<lambda>k. None)\<rparr>"
  have 1: "response ?env = Inr ?body" by simp
  have 2: "\<not> isArray (warehouseList_of ?body)" by (simp add: warehouseList_of_def)
  show ?thesis
    using sync_invalid_data_format [OF 1 2, of example_runtime "\<lparr>tariffs = [], trace = []\<rparr>"]
    by simp
qed

section \<open>WBTariffsSync.sync on an empty list\<close>

text \<open>
  Claim C10. When \<open>warehouseList\<close> is the empty array, \<open>sync\<close> takes it for valid data: it
  logs its start, issues the request, logs that it found 0 tariffs and logs the completion.
  It sends no statement to the database and does not log the warning about the data format.
\<close>

theorem sync_empty_list:
  assumes "response env = Inr body" and "warehouseList_of body = JArray []"
  shows "WBTariffsSync_sync rt env s =
           s\<lparr>trace := trace s @
                [Log Info (StartingSync (today env)),
                 HttpGet (''/tariffs/box?date='' @ today env),
                 Log Info (FoundTariffs 0),
                 Log Info SyncCompleted]\<rparr>"
proof -
  let ?s1 = "emit (HttpGet (''/tariffs/box?date='' @ today env))
               (logger Info (StartingSync (today env)) s)"
  have "sync_try rt env (logger Info (StartingSync (today env)) s) =
          Inr (logger Info SyncCompleted (logger Info (FoundTariffs 0) ?s1))"
    using assms by (simp add: sync_try_def upsert_chunks_done)
  then have "WBTariffsSync_sync rt env s =
      logger Info SyncCompleted (logger Info (FoundTariffs 0) ?s1)"
    by (simp add: WBTariffsSync_sync_def)
  then show ?thesis by (simp add: logger_def emit_def)
qed

text \<open>Claim C10 at a response with an empty \<open>warehouseList\<close>.\<close>

theorem sync_empty_list_witness:
  "WBTariffsSync_sync example_runtime
     \<lparr>today = ''2024-03-05'', clock = (\<lambda>n. 0),
      response = Inr (JObject [(''response'', JObject [(''data'', JObject [(''warehouseList'', JArray [])])])]),
      db_fault = (\<lambda>k. None)\<rparr>
     \<lparr>tariffs = [], trace = []\<rparr> =
   \<lparr>tariffs = [],
    trace = [Log Info (StartingSync ''2024-03-05''), HttpGet ''/tariffs/box?date=2024-03-05'',
             Log Info (FoundTariffs 0), Log Info SyncCompleted]\<rparr>"
proof -
  let ?body = "JObject [(''response'', JObject [(''data'', JObject [(''warehouseList'', JArray [])])])]"
  let ?env = "\<lparr>today = ''2024-03-05'', clock = (\<lambda>n. 0), response = Inr ?body,
                db_fault = (\<lambda>k. None)\<rparr>"
  have 1: "response ?env = Inr ?body" by simp
  have 2: "warehouseList_of ?body = JArray []" by (simp add: warehouseList_of_def)
  show ?thesis
    using sync_empty_list [OF 1 2, of example_runtime "\<lparr>tariffs = [], trace = []\<rparr>"]
    by simp
qed

section \<open>The upsert\<close>

lemma merge_row_keys:
  "row_key ` set (merge_row r t) = insert (row_key r) (row_key ` set t)"
  by (induction t) auto

lemma merge_row_distinct:
  "distinct (map row_key t) \<Longrightarrow> distinct (map row_key (merge_row r t))"
proof (induction t)
  case Nil
  then show ?case by simp
next
  case (Cons x t)
  show ?case
  proof (cases "row_key x = row_key r")
    case True
    with Cons.prems show ?thesis by simp
  next
    case False
    have "row_key x \<notin> row_key ` set (merge_row r t)"
      using Cons.prems False unfolding merge_row_keys by simp
    with Cons False show ?thesis by simp
  qed
qed

lemma merge_row_filter_other:
  "k \<noteq> row_key r \<Longrightarrow> filter (\<lambda>x. row_key x = k) (merge_row r t) = filter (\<lambda>x. row_key x = k) t"
  by (induction t) auto

lemma filter_absent_key:
  "k \<notin> set (map row_key t) \<Longrightarrow> filter (\<lambda>x. row_key x = k) t = []"
  by (induction t) auto

lemma merge_row_filter_same:
  "distinct (map row_key t) \<Longrightarrow> filter (\<lambda>x. row_key x = row_key r) (merge_row r t) = [r]"
proof (induction t)
  case Nil
  then show ?case by simp
next
  case (Cons x t)
  show ?case
  proof (cases "row_key x = row_key r")
    case True
    then have "row_key r \<notin> set (map row_key t)" using Cons.prems by auto
    then have "filter (\<lambda>x. row_key x = row_key r) t = []" by (rule filter_absent_key)
    with True show ?thesis by simp
  next
    case False
    with Cons show ?thesis by simp
  qed
qed

lemma merge_rows_keys:
  "row_key ` set (foldl (\<lambda>t' r. merge_row r t') t rs) = row_key ` set t \<union> row_key ` set rs"
proof (induction rs arbitrary: t)
  case Nil
  show ?case by simp
next
  case (Cons x xs)
  have "row_key ` set (foldl (\<lambda>t' r. merge_row r t') (merge_row x t) xs) =
      row_key ` set (merge_row x t) \<union> row_key ` set xs"
    by (rule Cons.IH)
  then show ?case unfolding merge_row_keys by auto
qed

lemma merge_rows_distinct:
  "distinct (map row_key t) \<Longrightarrow> distinct (map row_key (foldl (\<lambda>t' r. merge_row r t') t rs))"
  by (induction rs arbitrary: t) (auto simp: merge_row_distinct)

lemma merge_rows_filter_other:
  "k \<notin> set (map row_key rs) \<Longrightarrow>
     filter (\<lambda>x. row_key x = k) (foldl (\<lambda>t' r. merge_row r t') t rs) = filter (\<lambda>x. row_key x = k) t"
  by (induction rs arbitrary: t) (auto simp: merge_row_filter_other)

lemma merge_rows_filter_same:
  "distinct (map row_key t) \<Longrightarrow> distinct (map row_key rs) \<Longrightarrow> r \<in> set rs \<Longrightarrow>
     filter (\<lambda>x. row_key x = row_key r) (foldl (\<lambda>t' r. merge_row r t') t rs) = [r]"
proof (induction rs arbitrary: t)
  case Nil
  then show ?case by simp
next
  case (Cons x xs)
  show ?case
  proof (cases "r = x")
    case True
    have "row_key x \<notin> set (map row_key xs)" using Cons.prems(2) by simp
    then have "filter (\<lambda>y. row_key y = row_key x) (foldl (\<lambda>t' r. merge_row r t') (merge_row x t) xs) =
        filter (\<lambda>y. row_key y = row_key x) (merge_row x t)"
      by (rule merge_rows_filter_other)
    also have "\<dots> = [x]" using Cons.prems(1) by (rule merge_row_filter_same)
    finally show ?thesis using True by simp
  next
    case False
    then have "r \<in> set xs" using Cons.prems(3) by simp
    moreover have "distinct (map row_key (merge_row x t))"
      using Cons.prems(1) by (rule merge_row_distinct)
    moreover have "distinct (map row_key xs)" using Cons.prems(2) by simp
    ultimately show ?thesis using Cons.IH by simp
  qed
qed

lemma to_rows_member:
  "to_rows rt vs = Inr rs \<Longrightarrow> v \<in> set vs \<Longrightarrow> to_row rt v = Inr r \<Longrightarrow> r \<in> set rs"
  by (induction vs arbitrary: rs) (auto split: sum.splits)

lemma to_row_fields:
  assumes "to_row rt v = Inr r"
  shows "updated_at r = v_updated_at v \<and> date r = v_date v \<and>
         to_varchar_255 rt (v_warehouse_name v) = Inr (warehouse_name r) \<and>
         to_decimal_10_2 rt (v_delivery_base v) = Inr (delivery_base r) \<and>
         to_decimal_10_2 rt (v_delivery_liter v) = Inr (delivery_liter r) \<and>
         to_decimal_10_2 rt (v_delivery_and_storage_expr v) = Inr (delivery_and_storage_expr r) \<and>
         to_decimal_10_2 rt (v_storage_base v) = Inr (storage_base r) \<and>
         to_decimal_10_2 rt (v_storage_liter v) = Inr (storage_liter r)"
  using assms unfolding to_row_def by (auto split: sum.splits)

lemma insert_on_conflict_merge_unique:
  "insert_on_conflict_merge rt chunk t = Inr t' \<Longrightarrow> unique_keys t \<Longrightarrow> unique_keys t'"
  unfolding insert_on_conflict_merge_def unique_keys_def
  by (auto split: sum.splits if_splits simp: merge_rows_distinct)

lemma insert_on_conflict_merge_keys:
  "insert_on_conflict_merge rt chunk t = Inr t' \<Longrightarrow> row_key ` set t \<subseteq> row_key ` set t'"
  unfolding insert_on_conflict_merge_def
  by (auto split: sum.splits if_splits simp: merge_rows_keys)

lemma insert_on_conflict_merge_row:
  assumes "insert_on_conflict_merge rt chunk t = Inr t'" and "unique_keys t"
    and "v \<in> set chunk" and "to_row rt v = Inr r"
  shows "filter (\<lambda>x. row_key x = row_key r) t' = [r]"
proof -
  obtain rs where rs: "to_rows rt chunk = Inr rs" and d: "distinct (map row_key rs)"
    and t': "t' = foldl (\<lambda>t' r. merge_row r t') t rs"
    using assms(1) unfolding insert_on_conflict_merge_def
    by (auto split: sum.splits if_splits)
  have "r \<in> set rs" using rs assms(3,4) by (rule to_rows_member)
  then show ?thesis
    using assms(2) d unfolding t' unique_keys_def by (simp add: merge_rows_filter_same)
qed

section \<open>The table under the pipeline\<close>

lemma table_grows_refl [simp]: "table_grows t t"
  by (simp add: table_grows_def)

lemma table_grows_trans: "table_grows t t' \<Longrightarrow> table_grows t' t'' \<Longrightarrow> table_grows t t''"
  unfolding table_grows_def by blast

lemma parse_field_tariffs:
  "parse_field w k s = Inl (e, s') \<Longrightarrow> tariffs s' = tariffs s"
  "parse_field w k s = Inr (n, s') \<Longrightarrow> tariffs s' = tariffs s"
  unfolding parse_field_def by (auto split: sum.splits)

lemma to_tariff_tariffs:
  "to_tariff env i w s = Inl (e, s') \<Longrightarrow> tariffs s' = tariffs s"
  "to_tariff env i w s = Inr (t, s') \<Longrightarrow> tariffs s' = tariffs s"
  unfolding to_tariff_def
  by (auto split: sum.splits prod.splits dest!: parse_field_tariffs)

lemma map_entries_tariffs:
  "map_entries env i ws s = Inl (e, s') \<Longrightarrow> tariffs s' = tariffs s"
  "map_entries env i ws s = Inr (ts, s') \<Longrightarrow> tariffs s' = tariffs s"
proof (induction ws arbitrary: i s ts)
  case Nil
  { case 1 then show ?case by simp }
  { case 2 then show ?case by simp }
next
  case (Cons w ws)
  { case 1
    then show ?case
      by (auto split: sum.splits prod.splits dest!: to_tariff_tariffs Cons.IH(1)) }
  { case 2
    then show ?case
      by (auto split: sum.splits prod.splits dest!: to_tariff_tariffs Cons.IH(2)) }
qed

lemma upsert_grows: "table_grows (tariffs s) (tariffs (final (upsert rt env k chunk s)))"
proof (cases "db_fault env k")
  case (Some e)
  then show ?thesis by (simp add: upsert_def Let_def)
next
  case None
  show ?thesis
  proof (cases "insert_on_conflict_merge rt chunk (tariffs s)")
    case (Inl e)
    then show ?thesis using None by (simp add: upsert_def Let_def)
  next
    case (Inr t)
    then have "table_grows (tariffs s) t"
      unfolding table_grows_def
      using insert_on_conflict_merge_unique insert_on_conflict_merge_keys by blast
    then show ?thesis using None Inr by (simp add: upsert_def Let_def)
  qed
qed

lemma upsert_chunks_grows:
  "table_grows (tariffs s) (tariffs (final (upsert_chunks rt env ts i s)))"
proof (induction rt env ts i s rule: upsert_chunks.induct)
  case (1 rt env ts i s)
  show ?case
  proof (cases "i < length ts")
    case False
    then show ?thesis by (simp add: upsert_chunks_done)
  next
    case True
    let ?c = "take chunkSize (drop i ts)"
    show ?thesis
    proof (cases "upsert rt env (i div chunkSize) ?c s")
      case (Inl x)
      then have "upsert_chunks rt env ts i s = Inl x"
        using True by (subst upsert_chunks.simps) simp
      then show ?thesis using upsert_grows [of s rt env "i div chunkSize" ?c] Inl by simp
    next
      case (Inr s1)
      then have eq: "upsert_chunks rt env ts i s = upsert_chunks rt env ts (i + chunkSize) s1"
        using True by (subst upsert_chunks.simps) simp
      have "table_grows (tariffs s) (tariffs s1)"
        using upsert_grows [of s rt env "i div chunkSize" ?c] Inr by simp
      moreover have "table_grows (tariffs s1) (tariffs (final (upsert_chunks rt env ts (i + chunkSize) s1)))"
        using "1.IH" [OF True refl Inr] .
      ultimately show ?thesis unfolding eq by (rule table_grows_trans)
    qed
  qed
qed

lemma sync_try_grows: "table_grows (tariffs s) (tariffs (final (sync_try rt env s)))"
proof -
  let ?s1 = "emit (HttpGet (''/tariffs/box?date='' @ today env)) s"
  show ?thesis
  proof (cases "response env")
    case (Inl e)
    then show ?thesis by (simp add: sync_try_def)
  next
    case (Inr body)
    show ?thesis
    proof (cases "isArray (warehouseList_of body)")
      case False
      then show ?thesis using Inr by (simp add: sync_try_def isArray_case)
    next
      case True
      then obtain ws where ws: "warehouseList_of body = JArray ws"
        by (cases "warehouseList_of body") auto
      show ?thesis
      proof (cases "map_entries env 0 ws ?s1")
        case (Inl x)
        then obtain e s' where x: "x = (e, s')" by (cases x)
        then have "tariffs s' = tariffs s" using map_entries_tariffs(1) Inl by fastforce
        then show ?thesis using Inr ws Inl x by (simp add: sync_try_def)
      next
        case r: (Inr y)
        then obtain ts s2 where y: "y = (ts, s2)" by (cases y)
        then have t2: "tariffs s2 = tariffs s" using map_entries_tariffs(2) r by fastforce
        let ?s3 = "logger Info (FoundTariffs (length ts)) s2"
        have g: "table_grows (tariffs s) (tariffs (final (upsert_chunks rt env ts 0 ?s3)))"
          using upsert_chunks_grows [of ?s3 rt env ts 0] t2 by simp
        have "tariffs (final (sync_try rt env s)) = tariffs (final (upsert_chunks rt env ts 0 ?s3))"
          using Inr ws r y by (cases "upsert_chunks rt env ts 0 ?s3") (auto simp: sync_try_def)
        with g show ?thesis by simp
      qed
    qed
  qed
qed

lemma WBTariffsSync_sync_grows: "table_grows (tariffs s) (tariffs (WBTariffsSync_sync rt env s))"
proof -
  let ?s0 = "logger Info (StartingSync (today env)) s"
  have "tariffs (WBTariffsSync_sync rt env s) = tariffs (final (sync_try rt env ?s0))"
    unfolding WBTariffsSync_sync_def by (cases "sync_try rt env ?s0") auto
  then show ?thesis using sync_try_grows [of ?s0 rt env] by simp
qed

section \<open>The publisher leaves the table as it is\<close>

lemma attempt_try_tariffs: "tariffs (final (attempt_try rt this env s)) = tariffs s"
  by (simp add: attempt_try_def getTariffData_def clearSheet_def updateSheet_def Let_def
      split: option.splits)

lemma sync_from_done: "maxRetries this < of_int attempt \<Longrightarrow> sync_from rt this envs attempt s = s"
  by (subst sync_from.simps) simp

lemma sync_from_tariffs: "tariffs (sync_from rt this envs attempt s) = tariffs s"
proof (induction rt this envs attempt s rule: sync_from.induct)
  case (1 rt this envs attempt s)
  show ?case
  proof (cases "of_int attempt \<le> maxRetries this")
    case False
    then show ?thesis by (simp add: sync_from_done)
  next
    case True
    show ?thesis
    proof (cases "attempt_try rt this (envs attempt) s")
      case (Inr s1)
      then have "sync_from rt this envs attempt s = s1"
        using True by (subst sync_from.simps) simp
      then show ?thesis using attempt_try_tariffs [of rt this "envs attempt" s] Inr by simp
    next
      case (Inl x)
      then obtain err s1 where x: "x = (err, s1)" by (cases x)
      have t1: "tariffs s1 = tariffs s"
        using attempt_try_tariffs [of rt this "envs attempt" s] Inl x by simp
      show ?thesis
      proof (cases "of_int attempt < maxRetries this")
        case lt: True
        then show ?thesis
          using "1.IH"(1) [OF True Inl x [symmetric] refl lt refl refl refl] True Inl x t1
          by (subst sync_from.simps) (simp add: Let_def)
      next
        case ge: False
        then show ?thesis
          using "1.IH"(2) [OF True Inl x [symmetric] refl ge] True Inl x t1
          by (subst sync_from.simps) (simp add: Let_def)
      qed
    qed
  qed
qed

lemma TariffSheetSyncService_sync_tariffs:
  "tariffs (TariffSheetSyncService_sync rt this envs s) = tariffs s"
  by (simp add: TariffSheetSyncService_sync_def sync_from_tariffs)

section \<open>The services write no record of the scheduler\<close>

lemma cron_log_emit [simp]:
  "cron_log (emit e s) = cron_log s @ (if is_cron_event e then [e] else [])"
  by (simp add: cron_log_def)

lemma cron_log_logger [simp]:
  "cron_log (logger l m s) = cron_log s @ (if is_cron_event (Log l m) then [Log l m] else [])"
  by (simp add: cron_log_def)

lemma cron_log_setTimeout [simp]: "cron_log (setTimeout d s) = cron_log s"
  by (simp add: setTimeout_def)

lemma cron_log_tariffs_update [simp]: "cron_log (s\<lparr>tariffs := t\<rparr>) = cron_log s"
  by (simp add: cron_log_def)













section \<open>One firing of the scheduler\<close>

lemma for_spreadsheetIds_returns:
  "for_spreadsheetIds (\<lambda>i sid s. Inr (f i sid s)) i ids s =
     Inr (foldl (\<lambda>s (j, sid). f j sid s) s (zip [i..<i + length ids] ids))"
proof (induction ids arbitrary: i s)
  case Nil
  show ?case by simp
next
  case (Cons sid ids)
  have "[i..<i + Suc (length ids)] = i # [Suc i..<i + Suc (length ids)]"
    by (rule upt_conv_Cons) simp
  then show ?case using Cons.IH [of "Suc i" "f i sid s"] by simp
qed

lemma hourly_job_eq:
  "hourly_job rt ids env s =
     publish_all rt (publish env) ids
       (logger Info TariffsFetched
          (WBTariffsSync_sync rt (fetch env) (logger Info RunningHourlyJob s)))"
  unfolding hourly_job_def cron_callback_def cron_try_def publish_all_def
  using for_spreadsheetIds_returns
    [of "\<lambda>i sid s. TariffSheetSyncService_sync rt (new_TariffSheetSyncService sid None None) (publish env i) s"
        0 ids]
  by (simp add: Let_def)

lemma foldl_syncs_tariffs:
  "tariffs (foldl (\<lambda>s (i, sid).
              TariffSheetSyncService_sync rt (new_TariffSheetSyncService sid None None) (envs i) s)
       s ps) = tariffs s"
  by (induction ps arbitrary: s) (auto simp: TariffSheetSyncService_sync_tariffs)


lemma hourly_job_grows: "table_grows (tariffs s) (tariffs (hourly_job rt ids env s))"
  unfolding hourly_job_eq publish_all_def foldl_syncs_tariffs
  using WBTariffsSync_sync_grows [of "logger Info RunningHourlyJob s" rt "fetch env"] by simp


lemma firings_grows: "table_grows (tariffs s) (tariffs (firings rt ids envs s))"
proof (induction envs arbitrary: s)
  case Nil
  show ?case by simp
next
  case (Cons env envs)
  show ?case
    using hourly_job_grows [of s rt ids env] Cons.IH [of "hourly_job rt ids env s"]
    by (simp add: table_grows_trans)
qed


section \<open>The scheduler\<close>



section \<open>The table\<close>

lemma numeric_in_digits:
  "list_all is_digit ip \<Longrightarrow> ip \<noteq> [] \<Longrightarrow> numeric_in ip = Some (of_nat (digits_val ip))"
proof -
  assume ip: "list_all is_digit ip" and ne: "ip \<noteq> []"
  then obtain c cs where ipc: "ip = c # cs" by (cases ip) auto
  with ip have "is_digit c" by simp
  then have "c \<noteq> CHR ''-''" "c \<noteq> CHR ''+''" by (auto simp: is_digit_def)
  then have "strip_sign ip = (False, ip)" by (simp add: strip_sign_def ipc)
  then show ?thesis by (simp add: numeric_in_def unsigned_decimal_integer [OF ip ne])
qed

text \<open>A whole number of a few digits is stored as it is.\<close>

lemma to_decimal_10_2_nat:
  assumes "n < 10 ^ 8"
  shows "to_decimal_10_2 rt (Some (Num (of_nat n))) = Inr (Some (Num (of_nat n)))"
proof -
  have "n < 10 ^ 21" using assms by simp
  then have s: "String_of_number rt (Num (of_nat n)) = string_of_nat n"
    by (rule String_of_number_nat)
  have n: "numeric_in (string_of_nat n) = Some (of_nat n)"
    using numeric_in_digits [OF string_of_nat_digits string_of_nat_not_empty]
    by (simp add: digits_val_string_of_nat)
  have "\<lfloor>(of_nat n :: rat) * 100 + 1 / 2\<rfloor> = int n * 100"
    by (rule floor_unique) simp_all
  then have r: "round2 (of_nat n) = of_nat n" by (simp add: round2_def)
  have "(of_nat n :: rat) < of_nat (10 ^ 8)" using assms by (simp only: of_nat_less_iff)
  then have "\<not> 10 ^ 8 \<le> \<bar>of_nat n :: rat\<bar>" by simp
  then show ?thesis by (simp add: to_decimal_10_2_def s n r)
qed

lemma to_row_example:
  assumes "liter < 10 ^ 8" and "length name \<le> 255" and "CHR 0x00 \<notin> set name"
  shows "to_row rt (example_values name liter time) = Inr (example_row name liter time)"
  using to_decimal_10_2_nat [OF assms(1), of rt] to_decimal_10_2_nat [of 48 rt] assms(2,3)
  by (simp add: to_row_def example_values_def example_row_def to_varchar_255_def
      to_decimal_10_2_def)

text \<open>
  Claim C6, amended for the timestamp. Through any number of firings of the pipeline a
  table with at most one row for each pair \<open>(warehouse_name, date)\<close> stays so, and every pair
  that has a row keeps one: no row is deleted. When a statement has stored the values \<open>v1\<close>
  as the row \<open>r1\<close> and a later statement stores values \<open>v2\<close> of the same pair as \<open>r2\<close>, the
  table has exactly one row for the pair after each, \<open>r1\<close> and then \<open>r2\<close>; \<open>r2\<close> carries the
  five numbers of \<open>v2\<close>, as the column stores them, and the timestamp of \<open>v2\<close>, which is
  the time read when \<open>v2\<close> was built. That timestamp is greater than the one before when the
  clock read a later time for \<open>v2\<close> than for \<open>v1\<close>.
\<close>

theorem tariffs_unique_and_merged:
  "(unique_keys (tariffs s) \<longrightarrow> unique_keys (tariffs (firings rt ids envs s))) \<and>
   row_key ` set (tariffs s) \<subseteq> row_key ` set (tariffs (firings rt ids envs s)) \<and>
   (\<forall>t c1 c2 t1 t2 v1 v2 r1 r2.
      unique_keys t \<and>
      insert_on_conflict_merge rt c1 t = Inr t1 \<and> v1 \<in> set c1 \<and> to_row rt v1 = Inr r1 \<and>
      insert_on_conflict_merge rt c2 t1 = Inr t2 \<and> v2 \<in> set c2 \<and> to_row rt v2 = Inr r2 \<and>
      row_key r1 = row_key r2 \<longrightarrow>
        filter (\<lambda>x. row_key x = row_key r1) t1 = [r1] \<and>
        filter (\<lambda>x. row_key x = row_key r1) t2 = [r2] \<and>
        to_decimal_10_2 rt (v_delivery_base v2) = Inr (delivery_base r2) \<and>
        to_decimal_10_2 rt (v_delivery_liter v2) = Inr (delivery_liter r2) \<and>
        to_decimal_10_2 rt (v_delivery_and_storage_expr v2) = Inr (delivery_and_storage_expr r2) \<and>
        to_decimal_10_2 rt (v_storage_base v2) = Inr (storage_base r2) \<and>
        to_decimal_10_2 rt (v_storage_liter v2) = Inr (storage_liter r2) \<and>
        updated_at r1 = v_updated_at v1 \<and>
        updated_at r2 = v_updated_at v2 \<and>
        (v_updated_at v1 < v_updated_at v2 \<longrightarrow> updated_at r1 < updated_at r2))"
proof (intro conjI allI impI)
  show "unique_keys (tariffs (firings rt ids envs s))" if "unique_keys (tariffs s)"
    using that firings_grows [of s rt ids envs] by (simp add: table_grows_def)
  show "row_key ` set (tariffs s) \<subseteq> row_key ` set (tariffs (firings rt ids envs s))"
    using firings_grows [of s rt ids envs] by (simp add: table_grows_def)
next
  fix t c1 c2 t1 t2 v1 v2 r1 r2
  assume a: "unique_keys t \<and>
      insert_on_conflict_merge rt c1 t = Inr t1 \<and> v1 \<in> set c1 \<and> to_row rt v1 = Inr r1 \<and>
      insert_on_conflict_merge rt c2 t1 = Inr t2 \<and> v2 \<in> set c2 \<and> to_row rt v2 = Inr r2 \<and>
      row_key r1 = row_key r2"
  then have u1: "unique_keys t1" using insert_on_conflict_merge_unique by blast
  show "filter (\<lambda>x. row_key x = row_key r1) t1 = [r1]"
    using a insert_on_conflict_merge_row by blast
  have "filter (\<lambda>x. row_key x = row_key r2) t2 = [r2]"
    using a u1 insert_on_conflict_merge_row by blast
  then show "filter (\<lambda>x. row_key x = row_key r1) t2 = [r2]" using a by simp
  have f1: "updated_at r1 = v_updated_at v1" using a to_row_fields by blast
  have f2: "updated_at r2 = v_updated_at v2 \<and> date r2 = v_date v2 \<and>
         to_varchar_255 rt (v_warehouse_name v2) = Inr (warehouse_name r2) \<and>
         to_decimal_10_2 rt (v_delivery_base v2) = Inr (delivery_base r2) \<and>
         to_decimal_10_2 rt (v_delivery_liter v2) = Inr (delivery_liter r2) \<and>
         to_decimal_10_2 rt (v_delivery_and_storage_expr v2) = Inr (delivery_and_storage_expr r2) \<and>
         to_decimal_10_2 rt (v_storage_base v2) = Inr (storage_base r2) \<and>
         to_decimal_10_2 rt (v_storage_liter v2) = Inr (storage_liter r2)"
    using a to_row_fields by blast
  from f2 show "to_decimal_10_2 rt (v_delivery_base v2) = Inr (delivery_base r2)" by blast
  from f2 show "to_decimal_10_2 rt (v_delivery_liter v2) = Inr (delivery_liter r2)" by blast
  from f2 show "to_decimal_10_2 rt (v_delivery_and_storage_expr v2) = Inr (delivery_and_storage_expr r2)" by blast
  from f2 show "to_decimal_10_2 rt (v_storage_base v2) = Inr (storage_base r2)" by blast
  from f2 show "to_decimal_10_2 rt (v_storage_liter v2) = Inr (storage_liter r2)" by blast
  from f1 show "updated_at r1 = v_updated_at v1" .
  from f2 show "updated_at r2 = v_updated_at v2" by blast
  show "updated_at r1 < updated_at r2" if "v_updated_at v1 < v_updated_at v2"
    using that f1 f2 by simp
qed

text \<open>Claim C6 at warehouse \<open>A\<close>, stored with a tariff of 48 at time 1000 and again with 52
  at time 2000.\<close>

theorem tariffs_unique_and_merged_witness:
  "unique_keys (tariffs (firings example_runtime [''sheet1''] [] \<lparr>tariffs = [], trace = []\<rparr>)) \<and>
   insert_on_conflict_merge example_runtime [example_values ''A'' 48 1000] [] =
     Inr [example_row ''A'' 48 1000] \<and>
   insert_on_conflict_merge example_runtime [example_values ''A'' 52 2000]
     [example_row ''A'' 48 1000] = Inr [example_row ''A'' 52 2000] \<and>
   filter (\<lambda>x. row_key x = row_key (example_row ''A'' 48 1000))
     [example_row ''A'' 52 2000] = [example_row ''A'' 52 2000] \<and>
   updated_at (example_row ''A'' 48 1000) < updated_at (example_row ''A'' 52 2000)"
proof -
  let ?v1 = "example_values ''A'' 48 1000" and ?v2 = "example_values ''A'' 52 2000"
  let ?r1 = "example_row ''A'' 48 1000" and ?r2 = "example_row ''A'' 52 2000"
  let ?s = "\<lparr>tariffs = [], trace = []\<rparr>"
  note inst = tariffs_unique_and_merged [of ?s example_runtime "[''sheet1'']" "[]"]
  have r1: "to_row example_runtime ?v1 = Inr ?r1" and r2: "to_row example_runtime ?v2 = Inr ?r2"
    by (simp_all add: to_row_example)
  have k: "row_key ?r1 = row_key ?r2" by (simp add: row_key_def example_row_def)
  have i1: "insert_on_conflict_merge example_runtime [?v1] [] = Inr [?r1]"
    by (simp add: insert_on_conflict_merge_def r1)
  have i2: "insert_on_conflict_merge example_runtime [?v2] [?r1] = Inr [?r2]"
    by (simp add: insert_on_conflict_merge_def r2 k)
  have u0: "unique_keys (tariffs ?s)" "unique_keys []" by (simp_all add: unique_keys_def)
  have t: "v_updated_at ?v1 < v_updated_at ?v2" by (simp add: example_values_def)
  have 1: "unique_keys (tariffs (firings example_runtime [''sheet1''] [] ?s))"
    using inst u0 by blast
  have h: "unique_keys [] \<and>
      insert_on_conflict_merge example_runtime [?v1] [] = Inr [?r1] \<and> ?v1 \<in> set [?v1] \<and>
      to_row example_runtime ?v1 = Inr ?r1 \<and>
      insert_on_conflict_merge example_runtime [?v2] [?r1] = Inr [?r2] \<and> ?v2 \<in> set [?v2] \<and>
      to_row example_runtime ?v2 = Inr ?r2 \<and> row_key ?r1 = row_key ?r2"
    using u0 i1 i2 r1 r2 k by simp
  have 2: "filter (\<lambda>x. row_key x = row_key ?r1) [?r2] = [?r2]"
    and 3: "v_updated_at ?v1 < v_updated_at ?v2 \<longrightarrow> updated_at ?r1 < updated_at ?r2"
    using inst [THEN conjunct2, THEN conjunct2, rule_format, OF h] by blast+
  from 1 i1 i2 2 3 t show ?thesis by blast
qed

text \<open>
  Claim C6 as stated fails when the clock reads the same time for the two records: the
  timestamp is the time read when a record is built, so it is then equal to the one
  before, not greater. Warehouse \<open>A\<close> is stored with 48 and then with 52, both built at
  time 1000.
\<close>

theorem tariffs_same_instant_counterexample:
  "insert_on_conflict_merge example_runtime [example_values ''A'' 48 1000] [] =
     Inr [example_row ''A'' 48 1000] \<and>
   insert_on_conflict_merge example_runtime [example_values ''A'' 52 1000]
     [example_row ''A'' 48 1000] = Inr [example_row ''A'' 52 1000] \<and>
   updated_at (example_row ''A'' 52 1000) = updated_at (example_row ''A'' 48 1000)"
proof -
  have r1: "to_row example_runtime (example_values ''A'' 48 1000) = Inr (example_row ''A'' 48 1000)"
    and r2: "to_row example_runtime (example_values ''A'' 52 1000) = Inr (example_row ''A'' 52 1000)"
    by (simp_all add: to_row_example)
  have k: "row_key (example_row ''A'' 48 1000) = row_key (example_row ''A'' 52 1000)"
    by (simp add: row_key_def example_row_def)
  have i1: "insert_on_conflict_merge example_runtime [example_values ''A'' 48 1000] [] =
      Inr [example_row ''A'' 48 1000]"
    by (simp add: insert_on_conflict_merge_def r1)
  have i2: "insert_on_conflict_merge example_runtime [example_values ''A'' 52 1000]
      [example_row ''A'' 48 1000] = Inr [example_row ''A'' 52 1000]"
    by (simp add: insert_on_conflict_merge_def r2 k)
  have "updated_at (example_row ''A'' 52 1000) = updated_at (example_row ''A'' 48 1000)"
    by (simp add: example_row_def)
  with i1 i2 show ?thesis by blast
qed

section \<open>One attempt of the publisher\<close>

lemma length_orderBy [simp]: "length (orderBy_delivery_liter_asc t) = length t"
  by (simp add: orderBy_delivery_liter_asc_def)

lemma attempt_try_ok:
  assumes "\<not> fails env"
  shows "attempt_try rt this env s =
           Inr (s\<lparr>trace := trace s @
                  [DbSelect,
                   SheetsClear (spreadsheetId this) (sheetName this @ ''!A1:Z1000''),
                   SheetsUpdate (spreadsheetId this) (sheetName this @ ''!A1'')
                     (formatRows rt (orderBy_delivery_liter_asc (tariffs s))),
                   Log Info (Synced (spreadsheetId this) (int (length (tariffs s))))]\<rparr>)"
  using assms
  by (simp add: fails_def attempt_try_def getTariffData_def clearSheet_def updateSheet_def
      Let_def formatRows_def logger_def emit_def)

lemma attempt_try_fail:
  assumes "fails env"
  shows "\<exists>err s1 evs. attempt_try rt this env s = Inl (err, s1) \<and>
           trace s1 = trace s @ DbSelect # evs \<and> timeline evs = [] \<and> attempts evs = 0 \<and>
           tariffs s1 = tariffs s"
proof (cases "select_fault env")
  case (Some e)
  then show ?thesis
    by (simp add: attempt_try_def getTariffData_def Let_def emit_def timeline_def attempts_def)
next
  case None
  show ?thesis
  proof (cases "clear_fault env")
    case (Some e)
    then show ?thesis
      using None
      by (simp add: attempt_try_def getTariffData_def clearSheet_def Let_def emit_def
          timeline_def attempts_def)
  next
    case n2: None
    then obtain e where "update_fault env = Some e" using None assms by (auto simp: fails_def)
    then show ?thesis
      using None n2
      by (simp add: attempt_try_def getTariffData_def clearSheet_def updateSheet_def Let_def
          emit_def timeline_def attempts_def)
  qed
qed

lemma attempt_try_returns: "attempt_try rt this env s = Inr s1 \<Longrightarrow> \<not> fails env"
  using attempt_try_fail [of env rt this s] by auto

section \<open>The retry loop\<close>

lemma timeline_append [simp]: "timeline (xs @ ys) = timeline xs @ timeline ys"
  by (simp add: timeline_def)

lemma attempts_append [simp]: "attempts (xs @ ys) = attempts xs + attempts ys"
  by (simp add: attempts_def)

lemma timeline_Cons [simp]:
  "timeline (e # xs) = (if is_attempt_or_timer e then e # timeline xs else timeline xs)"
  by (simp add: timeline_def)

lemma attempts_Cons [simp]:
  "attempts (e # xs) = (if e = DbSelect then Suc (attempts xs) else attempts xs)"
  by (simp add: attempts_def)

lemma timeline_Nil [simp]: "timeline [] = []" and attempts_Nil [simp]: "attempts [] = 0"
  by (simp_all add: timeline_def attempts_def)

lemma schedule_one: "schedule a (Suc 0) = [DbSelect]"
  by (simp add: schedule_def)

lemma schedule_Suc:
  "1 \<le> c \<Longrightarrow>
     schedule a (Suc c) = DbSelect # SetTimeout (timer_delay (1000 * 2 ^ a)) # schedule (Suc a) c"
proof -
  assume "1 \<le> c"
  then have "[a..<a + Suc c - 1] = a # [Suc a..<Suc a + c - 1]"
    by (simp add: upt_conv_Cons)
  then show ?thesis by (simp add: schedule_def)
qed

text \<open>
  The loop from attempt \<open>a\<close> on, for a whole number \<open>m\<close> of retries. It makes \<open>c\<close> attempts, the
  attempts \<open>a\<close> to \<open>a + c - 1\<close>, none beyond \<open>m\<close>. All but the last one fail, and after each of
  them the timer is set. If the last one succeeds the loop ends with the record of the
  synchronisation; if it fails it is attempt \<open>m\<close>, and the loop ends with the record of
  the terminal failure. In both cases the loop returns.
\<close>

lemma sync_from_schedule:
  assumes "maxRetries this = of_int m" and "1 \<le> a" and "a \<le> m"
  shows "\<exists>new c. trace (sync_from rt this envs a s) = trace s @ new \<and>
           1 \<le> c \<and> a + int c - 1 \<le> m \<and> attempts new = c \<and>
           timeline new = schedule (nat a) c \<and>
           (\<forall>j. a \<le> j \<and> j < a + int c - 1 \<longrightarrow> fails (envs j)) \<and>
           (if fails (envs (a + int c - 1))
            then a + int c - 1 = m \<and> last new = Log Err (SyncFailedAfter (of_int m))
            else last new = Log Info (Synced (spreadsheetId this) (int (length (tariffs s)))))"
  using assms
proof (induction rt this envs a s rule: sync_from.induct)
  case (1 rt this envs a s)
  note m = "1.prems"(1)
  have le: "of_int a \<le> maxRetries this" using "1.prems"(3) m by simp
  show ?case
  proof (cases "fails (envs a)")
    case False
    let ?new = "[DbSelect,
                   SheetsClear (spreadsheetId this) (sheetName this @ ''!A1:Z1000''),
                   SheetsUpdate (spreadsheetId this) (sheetName this @ ''!A1'')
                     (formatRows rt (orderBy_delivery_liter_asc (tariffs s))),
                   Log Info (Synced (spreadsheetId this) (int (length (tariffs s))))]"
    have "sync_from rt this envs a s = s\<lparr>trace := trace s @ ?new\<rparr>"
      using le attempt_try_ok [OF False, of rt this s] by (subst sync_from.simps) simp
    then have "trace (sync_from rt this envs a s) = trace s @ ?new" by simp
    moreover have "attempts ?new = 1" "timeline ?new = schedule (nat a) 1"
      by (simp_all add: schedule_one)
    moreover have "last ?new = Log Info (Synced (spreadsheetId this) (int (length (tariffs s))))"
      by simp
    ultimately show ?thesis
      using False "1.prems"(3) by (intro exI [of _ ?new] exI [of _ 1]) (auto simp: schedule_one)
  next
    case True
    obtain err s1 evs where at: "attempt_try rt this (envs a) s = Inl (err, s1)"
      and tr1: "trace s1 = trace s @ DbSelect # evs" and tl: "timeline evs = []"
      and ac: "attempts evs = 0" and ta: "tariffs s1 = tariffs s"
      using attempt_try_fail [OF True, of rt this s] by blast
    let ?s2 = "logger Err (AttemptFailed a (spreadsheetId this) err) s1"
    show ?thesis
    proof (cases "of_int a < maxRetries this")
      case False
      then have am: "a = m" using "1.prems"(3) m by simp
      let ?s3 = "logger Err (SyncFailedAfter (maxRetries this)) ?s2"
      let ?new = "DbSelect # evs @ [Log Err (AttemptFailed a (spreadsheetId this) err),
                    Log Err (SyncFailedAfter (of_int m))]"
      have "sync_from rt this envs a s = sync_from rt this envs (a + 1) ?s3"
        using le at False by (subst sync_from.simps) (simp add: Let_def)
      also have "\<dots> = ?s3" using am m by (simp add: sync_from_done)
      finally have "trace (sync_from rt this envs a s) = trace s @ ?new"
        using tr1 m by simp
      moreover have "attempts ?new = 1" "timeline ?new = schedule (nat a) 1"
        using tl ac by (simp_all add: schedule_one)
      moreover have "last ?new = Log Err (SyncFailedAfter (of_int m))" by simp
      ultimately show ?thesis
        using True am by (intro exI [of _ ?new] exI [of _ 1]) (auto simp: schedule_one)
    next
      case lt: True
      let ?d = "1000 * 2 ^ nat a :: nat"
      let ?s4 = "setTimeout ?d (logger Warn (RetryingIn (?d div 1000)) ?s2)"
      let ?pre = "DbSelect # evs @ [Log Err (AttemptFailed a (spreadsheetId this) err),
                    Log Warn (RetryingIn (?d div 1000)), SetTimeout (timer_delay ?d)]"
      have eq: "sync_from rt this envs a s = sync_from rt this envs (a + 1) ?s4"
        using le at lt by (subst sync_from.simps) (simp add: Let_def)
      have tr4: "trace ?s4 = trace s @ ?pre" using tr1 by simp
      have ta4: "tariffs ?s4 = tariffs s" using ta by simp
      have a1: "1 \<le> a + 1" "a + 1 \<le> m" using "1.prems"(2) lt m by simp_all
      obtain new' c' where
        tr: "trace (sync_from rt this envs (a + 1) ?s4) = trace ?s4 @ new'"
        and c1: "1 \<le> c'" and cm: "a + 1 + int c' - 1 \<le> m"
        and at': "attempts new' = c'" and tl': "timeline new' = schedule (nat (a + 1)) c'"
        and fl: "\<forall>j. a + 1 \<le> j \<and> j < a + 1 + int c' - 1 \<longrightarrow> fails (envs j)"
        and en: "if fails (envs (a + 1 + int c' - 1))
            then a + 1 + int c' - 1 = m \<and> last new' = Log Err (SyncFailedAfter (of_int m))
            else last new' = Log Info (Synced (spreadsheetId this) (int (length (tariffs ?s4))))"
        using "1.IH"(1) [OF le at refl refl lt refl refl refl m a1] by blast
      have ne: "new' \<noteq> []" using at' c1 by auto
      let ?new = "?pre @ new'"
      have "trace (sync_from rt this envs a s) = trace s @ ?new"
        unfolding eq tr tr4 by simp
      moreover have "attempts ?new = Suc c'" using ac at' by simp
      moreover have "timeline ?new = schedule (nat a) (Suc c')"
      proof -
        have "Suc (nat a) = nat (a + 1)" using "1.prems"(2) by simp
        then show ?thesis using tl tl' schedule_Suc [OF c1, of "nat a"] by simp
      qed
      moreover have "\<forall>j. a \<le> j \<and> j < a + int (Suc c') - 1 \<longrightarrow> fails (envs j)"
      proof (intro allI impI)
        fix j assume j: "a \<le> j \<and> j < a + int (Suc c') - 1"
        show "fails (envs j)"
        proof (cases "j = a")
          case True
          then show ?thesis using \<open>fails (envs a)\<close> by simp
        next
          case False
          then have "a + 1 \<le> j \<and> j < a + 1 + int c' - 1" using j by simp
          then show ?thesis using fl by blast
        qed
      qed
      moreover have "a + int (Suc c') - 1 = a + 1 + int c' - 1" by simp
      moreover have "last ?new = last new'" using ne by simp
      ultimately show ?thesis
        using cm en ta4 by (intro exI [of _ ?new] exI [of _ "Suc c'"]) auto
    qed
  qed
qed

lemma sync_from_all_fail:
  assumes m: "maxRetries this = of_int m" and "1 \<le> m" and all: "\<forall>k. fails (envs k)"
  shows "\<exists>new. trace (TariffSheetSyncService_sync rt this envs s) = trace s @ new \<and>
           attempts new = nat m \<and> timeline new = schedule 1 (nat m) \<and>
           last new = Log Err (SyncFailedAfter (of_int m))"
proof -
  obtain new c where tr: "trace (sync_from rt this envs 1 s) = trace s @ new"
    and c: "1 \<le> c" "attempts new = c" "timeline new = schedule (nat 1) c"
    and en: "if fails (envs (1 + int c - 1))
            then 1 + int c - 1 = m \<and> last new = Log Err (SyncFailedAfter (of_int m))
            else last new = Log Info (Synced (spreadsheetId this) (int (length (tariffs s))))"
    using sync_from_schedule [where a = 1 and rt = rt and envs = envs and s = s, OF m _ assms(2)]
    by auto
  from en all have "1 + int c - 1 = m" and l: "last new = Log Err (SyncFailedAfter (of_int m))"
    by auto
  then have "c = nat m" by simp
  with tr c l show ?thesis by (auto simp: TariffSheetSyncService_sync_def)
qed

lemma schedule_23:
  "schedule 1 23 =
       [DbSelect, SetTimeout 2000, DbSelect, SetTimeout 4000,
        DbSelect, SetTimeout 8000, DbSelect, SetTimeout 16000,
        DbSelect, SetTimeout 32000, DbSelect, SetTimeout 64000,
        DbSelect, SetTimeout 128000, DbSelect, SetTimeout 256000,
        DbSelect, SetTimeout 512000, DbSelect, SetTimeout 1024000,
        DbSelect, SetTimeout 2048000, DbSelect, SetTimeout 4096000,
        DbSelect, SetTimeout 8192000, DbSelect, SetTimeout 16384000,
        DbSelect, SetTimeout 32768000, DbSelect, SetTimeout 65536000,
        DbSelect, SetTimeout 131072000, DbSelect, SetTimeout 262144000,
        DbSelect, SetTimeout 524288000, DbSelect, SetTimeout 1048576000,
        DbSelect, SetTimeout 2097152000, DbSelect, SetTimeout 1,
        DbSelect]"
proof -
  have "[1..<1 + 23 - 1] = [1, 2, 3, 4, 5, 6, 7, 8, 9, 10, 11, 12, 13, 14, 15, 16, 17, 18, 19, 20, 21, 22 :: nat]"
    by (simp add: upt_rec)
  then show ?thesis by (simp add: schedule_def timer_delay_def)
qed

text \<open>
  Claim C4 at its failing input: a service with \<open>maxRetries = 23\<close>, all of whose attempts
  fail. It makes the 23 attempts, and after each attempt \<open>i\<close> below 23 it sets a timer. Up to
  attempt 21 the timer is \<open>1000 * 2^i\<close> milliseconds. After attempt 22 the delay is
  \<open>1000 * 2^22 = 4194304000\<close>, which is above \<open>2^31 - 1\<close>: the code logs that it retries in
  4194304 seconds, and the timer it sets fires after 1 millisecond, where the claim says
  that it sleeps 4194304000 milliseconds and that the delays increase.
\<close>

theorem sync_timer_overflow:
  assumes "maxRetries this = 23" and "\<forall>k. fails (envs k)"
  shows "timeline (trace (TariffSheetSyncService_sync rt this envs s)) =
     timeline (trace s) @
       [DbSelect, SetTimeout 2000, DbSelect, SetTimeout 4000,
        DbSelect, SetTimeout 8000, DbSelect, SetTimeout 16000,
        DbSelect, SetTimeout 32000, DbSelect, SetTimeout 64000,
        DbSelect, SetTimeout 128000, DbSelect, SetTimeout 256000,
        DbSelect, SetTimeout 512000, DbSelect, SetTimeout 1024000,
        DbSelect, SetTimeout 2048000, DbSelect, SetTimeout 4096000,
        DbSelect, SetTimeout 8192000, DbSelect, SetTimeout 16384000,
        DbSelect, SetTimeout 32768000, DbSelect, SetTimeout 65536000,
        DbSelect, SetTimeout 131072000, DbSelect, SetTimeout 262144000,
        DbSelect, SetTimeout 524288000, DbSelect, SetTimeout 1048576000,
        DbSelect, SetTimeout 2097152000, DbSelect, SetTimeout 1,
        DbSelect]"
proof -
  have m: "maxRetries this = of_int 23" using assms(1) by simp
  obtain new where tr: "trace (TariffSheetSyncService_sync rt this envs s) = trace s @ new"
    and tl: "timeline new = schedule 1 (nat 23)"
    using sync_from_all_fail [where rt = rt and s = s, OF m _ assms(2)] by auto
  have "nat 23 = (23 :: nat)" by simp
  with tl have "timeline new = schedule 1 23" by (simp only:)
  then show ?thesis by (simp only: tr timeline_append schedule_23)
qed

text \<open>Claim C4 at a service constructed with 23 retries for the sheet \<open>sheet1\<close>, every
  attempt failing at the \<open>select\<close>, from the empty trace.\<close>

theorem sync_timer_overflow_witness:
  "timeline (trace (TariffSheetSyncService_sync example_runtime
       (new_TariffSheetSyncService ''sheet1'' None (Some 23)) (\<lambda>k. failing_attempt)
       \<lparr>tariffs = [], trace = []\<rparr>)) =
       [DbSelect, SetTimeout 2000, DbSelect, SetTimeout 4000,
        DbSelect, SetTimeout 8000, DbSelect, SetTimeout 16000,
        DbSelect, SetTimeout 32000, DbSelect, SetTimeout 64000,
        DbSelect, SetTimeout 128000, DbSelect, SetTimeout 256000,
        DbSelect, SetTimeout 512000, DbSelect, SetTimeout 1024000,
        DbSelect, SetTimeout 2048000, DbSelect, SetTimeout 4096000,
        DbSelect, SetTimeout 8192000, DbSelect, SetTimeout 16384000,
        DbSelect, SetTimeout 32768000, DbSelect, SetTimeout 65536000,
        DbSelect, SetTimeout 131072000, DbSelect, SetTimeout 262144000,
        DbSelect, SetTimeout 524288000, DbSelect, SetTimeout 1048576000,
        DbSelect, SetTimeout 2097152000, DbSelect, SetTimeout 1,
        DbSelect]"
proof -
  have 1: "maxRetries (new_TariffSheetSyncService ''sheet1'' None (Some 23)) = 23"
    by (simp add: new_TariffSheetSyncService_def)
  have 2: "\<forall>k :: int. fails ((\<lambda>k. failing_attempt) k)"
    by (simp add: fails_def failing_attempt_def)
  show ?thesis
    using sync_timer_overflow [OF 1 2, of example_runtime "\<lparr>tariffs = [], trace = []\<rparr>"]
    by simp
qed

text \<open>
  Claim C9. A service whose \<open>maxRetries\<close> is below 1 makes no attempt: \<open>sync\<close> returns the
  state as it found it, the table and the trace, so it has read nothing from the database,
  cleared and written nothing in the sheet, and logged nothing.
\<close>

theorem sync_no_attempt:
  assumes "maxRetries this < 1"
  shows "TariffSheetSyncService_sync rt this envs s = s"
  using assms by (simp add: TariffSheetSyncService_sync_def sync_from_done)

text \<open>Claim C9 at a service constructed with 0 retries.\<close>

theorem sync_no_attempt_witness:
  "TariffSheetSyncService_sync example_runtime
     (new_TariffSheetSyncService ''sheet1'' None (Some 0)) (\<lambda>k. failing_attempt)
     \<lparr>tariffs = [example_row ''A'' 48 1000], trace = []\<rparr> =
   \<lparr>tariffs = [example_row ''A'' 48 1000], trace = []\<rparr>"
proof -
  have "maxRetries (new_TariffSheetSyncService ''sheet1'' None (Some 0)) < 1"
    by (simp add: new_TariffSheetSyncService_def)
  then show ?thesis by (rule sync_no_attempt)
qed

section \<open>The grid\<close>

lemma to_double_48: "to_double 48 = Num 48"
  by (rule to_double_exact [where e = 5 and n = "3 * 2 ^ 51"]) (simp_all add: pow2_def)

lemma to_double_52: "to_double 52 = Num 52"
  by (rule to_double_exact [where e = 5 and n = "13 * 2 ^ 49"]) (simp_all add: pow2_def)

lemma toFixed_48: "toFixed rt (Num 48) 2 = ''48.00''"
proof -
  have n: "nat \<lfloor>\<bar>48 :: rat\<bar> * 10 ^ 2 + 1 / 2\<rfloor> = 4800"
    by (simp add: floor_rat_numeral)
  have s: "string_of_nat 4800 = ''4800''"
    by (simp add: string_of_nat.simps digit_char_def)
  have p: "padStart (2 + 1) CHR ''0'' ''4800'' = ''4800''" by (simp add: padStart_def)
  show ?thesis unfolding toFixed_def Let_def js_number.case n s p by simp
qed

lemma toFixed_52: "toFixed rt (Num 52) 2 = ''52.00''"
proof -
  have n: "nat \<lfloor>\<bar>52 :: rat\<bar> * 10 ^ 2 + 1 / 2\<rfloor> = 5200"
    by (simp add: floor_rat_numeral)
  have s: "string_of_nat 5200 = ''5200''"
    by (simp add: string_of_nat.simps digit_char_def)
  have p: "padStart (2 + 1) CHR ''0'' ''5200'' = ''5200''" by (simp add: padStart_def)
  show ?thesis unfolding toFixed_def Let_def js_number.case n s p by simp
qed

lemma formatDate_example:
  "formatDate example_runtime (DString ''2024-03-05'') = Some ''05.03.2024''"
  by (simp add: formatDate_def example_runtime_def String_of_number_def string_of_int_def
      string_of_nat.simps digit_char_def padStart_def)

lemma format_row_example:
  "format_row example_runtime (example_row ''A'' 48 time) =
     [Some ''05.03.2024'', Some ''A'', Some ''48,00'', Some ''48,00'', Some ''0,00'', Some ''0,00'',
      Some ''0,00'']"
  "format_row example_runtime (example_row ''B'' 52 time) =
     [Some ''05.03.2024'', Some ''B'', Some ''48,00'', Some ''52,00'', Some ''0,00'', Some ''0,00'',
      Some ''0,00'']"
proof -
  have d: "date_value example_runtime ''2024-03-05'' = DString ''2024-03-05''"
    by (simp add: example_runtime_def)
  show "format_row example_runtime (example_row ''A'' 48 time) =
     [Some ''05.03.2024'', Some ''A'', Some ''48,00'', Some ''48,00'', Some ''0,00'', Some ''0,00'',
      Some ''0,00'']"
    by (simp add: format_row_def example_row_def d formatDate_example field_value_def
        formatNumber_def to_double_48 toFixed_48 toFixed_zero)
  show "format_row example_runtime (example_row ''B'' 52 time) =
     [Some ''05.03.2024'', Some ''B'', Some ''48,00'', Some ''52,00'', Some ''0,00'', Some ''0,00'',
      Some ''0,00'']"
    by (simp add: format_row_def example_row_def d formatDate_example field_value_def
        formatNumber_def to_double_48 to_double_52 toFixed_48 toFixed_52 toFixed_zero)
qed

lemma orderBy_example:
  "orderBy_delivery_liter_asc [example_row ''B'' 52 t1, example_row ''A'' 48 t2] =
     [example_row ''A'' 48 t2, example_row ''B'' 52 t1]"
  by (simp add: orderBy_delivery_liter_asc_def example_row_def)

text \<open>
  Claim C5. A successful attempt reads all the rows of the table in ascending order of
  \<open>delivery_liter\<close> (numbers by value, then \<open>NaN\<close>, then \<open>null\<close>), clears \<open>A1:Z1000\<close> of the
  sheet and writes at \<open>A1\<close> the grid made of the row of the seven headers followed by one row
  for each record, in that order; it logs the number of records. The row of a record is
  its formatted date, its warehouse name, and its five numbers formatted as money in the
  order \<open>delivery_base\<close>, \<open>delivery_liter\<close>, \<open>delivery_and_storage_expr\<close>, \<open>storage_base\<close>,
  \<open>storage_liter\<close>. For \<open>n\<close> records the grid has \<open>n + 1\<close> rows, each of seven cells.
\<close>

theorem publish_grid:
  assumes "attempt_try rt this env s = Inr s'"
  shows "\<exists>data grid.
           mset data = mset (tariffs s) \<and>
           sorted (map (\<lambda>r. order_rank (delivery_liter r)) data) \<and>
           grid = headers # map (format_row rt) data \<and>
           trace s' = trace s @
             [DbSelect,
              SheetsClear (spreadsheetId this) (sheetName this @ ''!A1:Z1000''),
              SheetsUpdate (spreadsheetId this) (sheetName this @ ''!A1'') grid,
              Log Info (Synced (spreadsheetId this) (int (length data)))] \<and>
           tariffs s' = tariffs s \<and>
           length grid = length (tariffs s) + 1 \<and>
           (\<forall>row \<in> set grid. length row = 7) \<and>
           headers = [Some ''Date'', Some ''Warehouse'', Some ''DeliveryBase'', Some ''DeliveryLiter'',
                      Some ''DeliveryAndStorageExpr'', Some ''StorageBase'', Some ''StorageLiter''] \<and>
           (\<forall>r :: tariff_row. format_row rt r =
              [formatDate rt (date_value rt (date r)),
               Some (warehouse_name r),
               formatNumber rt (field_value (delivery_base r)),
               formatNumber rt (field_value (delivery_liter r)),
               formatNumber rt (field_value (delivery_and_storage_expr r)),
               formatNumber rt (field_value (storage_base r)),
               formatNumber rt (field_value (storage_liter r))])"
proof -
  let ?data = "orderBy_delivery_liter_asc (tariffs s)"
  let ?grid = "headers # map (format_row rt) ?data"
  have nf: "\<not> fails env" using assms by (rule attempt_try_returns)
  have "s' = s\<lparr>trace := trace s @
                  [DbSelect,
                   SheetsClear (spreadsheetId this) (sheetName this @ ''!A1:Z1000''),
                   SheetsUpdate (spreadsheetId this) (sheetName this @ ''!A1'')
                     (formatRows rt ?data),
                   Log Info (Synced (spreadsheetId this) (int (length (tariffs s))))]\<rparr>"
    using attempt_try_ok [OF nf, of rt this s] assms by simp
  then have tr: "trace s' = trace s @
             [DbSelect,
              SheetsClear (spreadsheetId this) (sheetName this @ ''!A1:Z1000''),
              SheetsUpdate (spreadsheetId this) (sheetName this @ ''!A1'') ?grid,
              Log Info (Synced (spreadsheetId this) (int (length ?data)))]"
    and ta: "tariffs s' = tariffs s"
    by (simp_all add: formatRows_def)
  have ms: "mset ?data = mset (tariffs s)"
    by (simp add: orderBy_delivery_liter_asc_def)
  have so: "sorted (map (\<lambda>r. order_rank (delivery_liter r)) ?data)"
    by (simp add: orderBy_delivery_liter_asc_def)
  have len: "length ?grid = length (tariffs s) + 1" by simp
  have seven: "\<forall>row \<in> set ?grid. length row = 7"
    by (auto simp: headers_def format_row_def)
  have fr: "\<forall>r :: tariff_row. format_row rt r =
              [formatDate rt (date_value rt (date r)),
               Some (warehouse_name r),
               formatNumber rt (field_value (delivery_base r)),
               formatNumber rt (field_value (delivery_liter r)),
               formatNumber rt (field_value (delivery_and_storage_expr r)),
               formatNumber rt (field_value (storage_base r)),
               formatNumber rt (field_value (storage_liter r))]"
    by (simp add: format_row_def)
  from ms so tr ta len seven fr show ?thesis
    by (intro exI [of _ ?data] exI [of _ ?grid] conjI) (simp_all add: headers_def)
qed

text \<open>Claim C5 at a table of two rows, warehouse \<open>B\<close> with 52 for \<open>delivery_liter\<close> stored
  before warehouse \<open>A\<close> with 48: the grid has three rows, \<open>A\<close> before \<open>B\<close>.\<close>

theorem publish_grid_witness:
  "attempt_try example_runtime (new_TariffSheetSyncService ''sheet1'' None None)
     \<lparr>select_fault = None, clear_fault = None, update_fault = None\<rparr>
     \<lparr>tariffs = [example_row ''B'' 52 1000, example_row ''A'' 48 1000], trace = []\<rparr> =
   Inr \<lparr>tariffs = [example_row ''B'' 52 1000, example_row ''A'' 48 1000],
        trace =
          [DbSelect,
           SheetsClear ''sheet1'' ''stocks_coefs!A1:Z1000'',
           SheetsUpdate ''sheet1'' ''stocks_coefs!A1''
             [[Some ''Date'', Some ''Warehouse'', Some ''DeliveryBase'', Some ''DeliveryLiter'',
               Some ''DeliveryAndStorageExpr'', Some ''StorageBase'', Some ''StorageLiter''],
              [Some ''05.03.2024'', Some ''A'', Some ''48,00'', Some ''48,00'', Some ''0,00'',
               Some ''0,00'', Some ''0,00''],
              [Some ''05.03.2024'', Some ''B'', Some ''48,00'', Some ''52,00'', Some ''0,00'',
               Some ''0,00'', Some ''0,00'']],
           Log Info (Synced ''sheet1'' 2)]\<rparr> \<and>
   (\<exists>data. mset data = mset [example_row ''B'' 52 1000, example_row ''A'' 48 1000] \<and>
      sorted (map (\<lambda>r. order_rank (delivery_liter r)) data) \<and>
      length (headers # map (format_row example_runtime) data) = 3)"
proof -
  let ?svc = "new_TariffSheetSyncService ''sheet1'' None None"
  let ?env = "\<lparr>select_fault = None, clear_fault = None, update_fault = None\<rparr>"
  let ?t = "[example_row ''B'' 52 1000, example_row ''A'' 48 1000]"
  let ?s = "\<lparr>tariffs = ?t, trace = []\<rparr>"
  have nf: "\<not> fails ?env" by (simp add: fails_def)
  have run: "attempt_try example_runtime ?svc ?env ?s =
      Inr (?s\<lparr>trace := trace ?s @
                  [DbSelect,
                   SheetsClear (spreadsheetId ?svc) (sheetName ?svc @ ''!A1:Z1000''),
                   SheetsUpdate (spreadsheetId ?svc) (sheetName ?svc @ ''!A1'')
                     (formatRows example_runtime (orderBy_delivery_liter_asc (tariffs ?s))),
                   Log Info (Synced (spreadsheetId ?svc) (int (length (tariffs ?s))))]\<rparr>)"
    by (rule attempt_try_ok [OF nf])
  have g: "formatRows example_runtime (orderBy_delivery_liter_asc ?t) =
      [[Some ''Date'', Some ''Warehouse'', Some ''DeliveryBase'', Some ''DeliveryLiter'',
               Some ''DeliveryAndStorageExpr'', Some ''StorageBase'', Some ''StorageLiter''],
              [Some ''05.03.2024'', Some ''A'', Some ''48,00'', Some ''48,00'', Some ''0,00'',
               Some ''0,00'', Some ''0,00''],
              [Some ''05.03.2024'', Some ''B'', Some ''48,00'', Some ''52,00'', Some ''0,00'',
               Some ''0,00'', Some ''0,00'']]"
    by (simp only: orderBy_example formatRows_def list.map format_row_example headers_def)
  have 1: "attempt_try example_runtime ?svc ?env ?s =
      Inr \<lparr>tariffs = ?t,
        trace =
          [DbSelect,
           SheetsClear ''sheet1'' ''stocks_coefs!A1:Z1000'',
           SheetsUpdate ''sheet1'' ''stocks_coefs!A1''
             [[Some ''Date'', Some ''Warehouse'', Some ''DeliveryBase'', Some ''DeliveryLiter'',
               Some ''DeliveryAndStorageExpr'', Some ''StorageBase'', Some ''StorageLiter''],
              [Some ''05.03.2024'', Some ''A'', Some ''48,00'', Some ''48,00'', Some ''0,00'',
               Some ''0,00'', Some ''0,00''],
              [Some ''05.03.2024'', Some ''B'', Some ''48,00'', Some ''52,00'', Some ''0,00'',
               Some ''0,00'', Some ''0,00'']],
           Log Info (Synced ''sheet1'' 2)]\<rparr>"
    unfolding run using g by (simp add: new_TariffSheetSyncService_def)
  have "\<exists>data. mset data = mset ?t \<and>
      sorted (map (\<lambda>r. order_rank (delivery_liter r)) data) \<and>
      length (headers # map (format_row example_runtime) data) = 3"
    using publish_grid [OF 1] by auto
  with 1 show ?thesis by blast
qed

end
